theory Spec2Isabelle
  imports Complex_Main "HOL-Library.Sublist" "HOL-Library.Char_ord" "HOL-Library.List_Lexorder"
    "HOL-Library.Log_Nat"
begin

section \<open>Data model\<close>

text \<open>
  The three relations of \<^verbatim>\<open>migration.sql\<close> and the TypeScript shapes of the
  server (\<^verbatim>\<open>server/src/index.ts\<close>) and of the client (\<^verbatim>\<open>DataContext.tsx\<close>).
  Identifiers and timestamps are strings (TEXT columns, ISO dates in JSON). The number of
  a JSON body or of a rating is a finite double and is held as the rational it denotes.
\<close>

datatype role = admin | normal_user | store_owner

record AuthPayload =
  p_id :: string
  p_role :: role

record User =
  u_id :: string
  u_name :: string
  u_email :: string
  u_address :: string
  u_role :: role
  u_createdAt :: string

record UserRow = User +
  u_password :: string

record Store =
  s_id :: string
  s_name :: string
  s_address :: string
  s_ownerId :: string
  s_createdAt :: string

record Rating =
  r_id :: string
  r_userId :: string
  r_storeId :: string
  r_rating :: rat
  r_createdAt :: string

record db =
  users :: "UserRow list"
  stores :: "Store list"
  ratings :: "Rating list"

text \<open>
  A value of a JSON request body field: \<open>JUndefined\<close> is an absent field,
  \<open>JObject\<close> any object or array, whose content no handler reads.
\<close>

datatype jsval = JUndefined | JNull | JBool bool | JNumber rat | JString string | JObject

text \<open>
  What a handler can end with other than its success response: a response with an error
  status (\<^verbatim>\<open>res.status(n).json({ error: e })\<close>), or an exception thrown inside the
  \<^verbatim>\<open>async\<close> handler, which no handler of the server catches.
\<close>

datatype exn =
    PrismaValidation
  | PrismaUnique
  | PrismaForeignKey
  | PrismaNotFound
  | BcryptIllegalArguments

datatype failure = Http nat string | Unhandled exn

section \<open>Numbers\<close>

text \<open>
  A JavaScript \<^verbatim>\<open>number\<close> is an IEEE 754 double. A finite one is modelled by the
  rational it denotes, with the negative zero taken for 0, from which no comparison of the
  code tells it apart; the two infinities are values of their own. NaN does not arise:
  the numbers of a JSON body are finite, a sum that has overflowed keeps its sign, and
  every division is by the length of a non-empty list.

  Each arithmetic operation gives the double nearest to the exact result, the even one of
  two that are equally near: \<open>fl\<close>. For a positive \<open>x\<close> with
  \<open>2 powi e \<le> x < 2 powi (e + 1)\<close> the doubles around \<open>x\<close> are the multiples of
  \<open>2 powi (e - 52)\<close>, and of \<open>2 powi (- 1074)\<close> below the normal range; a result of
  \<open>2 ^ 1024\<close> or more is the infinity.
\<close>

datatype num = NegInf | Fin rat | PosInf

definition ilog2 :: "rat \<Rightarrow> int" where
  "ilog2 x =
     (case quotient_of x of (a, b) \<Rightarrow>
        (let e = bitlen a - bitlen b in if 2 powi e \<le> x then e else e - 1))"

definition round_even :: "rat \<Rightarrow> int" where
  "round_even m =
     (let f = \<lfloor>m\<rfloor>; d = m - of_int f
      in if d < 1 / 2 then f else if 1 / 2 < d then f + 1 else if even f then f else f + 1)"

definition fl_pos :: "rat \<Rightarrow> rat" where
  "fl_pos x =
     (let q = max (ilog2 x - 52) (- 1074) in of_int (round_even (x / 2 powi q)) * 2 powi q)"

definition fl :: "rat \<Rightarrow> num" where
  "fl x =
     (if x = 0 then Fin 0
      else if 0 < x then (if fl_pos x < 2 ^ 1024 then Fin (fl_pos x) else PosInf)
      else (if fl_pos (- x) < 2 ^ 1024 then Fin (- fl_pos (- x)) else NegInf))"

text \<open>\<^verbatim>\<open>acc + r.rating\<close> for a finite rating, and \<^verbatim>\<open>sum / n\<close> for a length
  \<open>n\<close> that is not 0.\<close>

fun num_add :: "num \<Rightarrow> rat \<Rightarrow> num" where
  "num_add (Fin a) r = fl (a + r)"
| "num_add PosInf r = PosInf"
| "num_add NegInf r = NegInf"

fun num_div :: "num \<Rightarrow> nat \<Rightarrow> num" where
  "num_div (Fin a) n = fl (a / of_nat n)"
| "num_div PosInf n = PosInf"
| "num_div NegInf n = NegInf"

text \<open>The order of the numbers, for the comparisons \<^verbatim>\<open><\<close> and \<^verbatim>\<open>>\<close>.\<close>

instantiation num :: linorder
begin

definition less_eq_num :: "num \<Rightarrow> num \<Rightarrow> bool" where
  "less_eq_num x y \<longleftrightarrow>
     (case (x, y) of
        (NegInf, _) \<Rightarrow> True
      | (Fin a, Fin b) \<Rightarrow> a \<le> b
      | (Fin a, PosInf) \<Rightarrow> True
      | (Fin a, NegInf) \<Rightarrow> False
      | (PosInf, PosInf) \<Rightarrow> True
      | (PosInf, _) \<Rightarrow> False)"

definition less_num :: "num \<Rightarrow> num \<Rightarrow> bool" where
  "less_num x y \<longleftrightarrow> x \<le> y \<and> \<not> y \<le> (x::num)"

instance
proof
  fix x y z :: num
  show "x < y \<longleftrightarrow> x \<le> y \<and> \<not> y \<le> x" by (simp add: less_num_def)
  show "x \<le> x" by (cases x) (simp_all add: less_eq_num_def)
  show "x \<le> y \<Longrightarrow> y \<le> z \<Longrightarrow> x \<le> z"
    by (cases x; cases y; cases z) (simp_all add: less_eq_num_def)
  show "x \<le> y \<Longrightarrow> y \<le> x \<Longrightarrow> x = y"
    by (cases x; cases y) (simp_all add: less_eq_num_def)
  show "x \<le> y \<or> y \<le> x"
    by (cases x; cases y) (auto simp: less_eq_num_def)
qed

end

section \<open>Validators\<close>

text \<open>\<^verbatim>\<open>ratingSchema = z.object({ rating: z.number().min(1).max(5) })\<close>, applied with
  \<^verbatim>\<open>safeParse\<close> to the body, whose \<^verbatim>\<open>rating\<close> field is the argument here.\<close>

fun ratingSchema :: "jsval \<Rightarrow> rat option" where
  "ratingSchema (JNumber n) = (if 1 \<le> n \<and> n \<le> 5 then Some n else None)"
| "ratingSchema _ = None"

section \<open>Authentication\<close>

text \<open>\<^verbatim>\<open>String.prototype.replace\<close> with a string pattern: the first occurrence only.\<close>

fun replace :: "string \<Rightarrow> string \<Rightarrow> string \<Rightarrow> string" where
  "replace [] pat rep = (if pat = [] then rep else [])"
| "replace (c # cs) pat rep =
     (if prefix pat (c # cs) then rep @ drop (length pat) (c # cs)
      else c # replace cs pat rep)"

text \<open>
  \<^verbatim>\<open>authMiddleware\<close>. The JWT check \<^verbatim>\<open>verifyToken\<close> is a parameter: it yields the
  payload of a token signed with the server's secret and \<open>None\<close> where
  \<^verbatim>\<open>jwt.verify\<close> throws.
\<close>

definition authMiddleware ::
  "(string \<Rightarrow> AuthPayload option) \<Rightarrow> string option \<Rightarrow> failure + AuthPayload" where
  "authMiddleware verifyToken header =
     (case header of
        None \<Rightarrow> Inl (Http 401 ''unauthorized'')
      | Some h \<Rightarrow>
          if h = [] then Inl (Http 401 ''unauthorized'')
          else (case verifyToken (replace h ''Bearer '' []) of
                  None \<Rightarrow> Inl (Http 401 ''unauthorized'')
                | Some payload \<Rightarrow> Inr payload))"

section \<open>Storage operations on the Rating relation\<close>

text \<open>
  The constraints of \<^verbatim>\<open>migration.sql\<close>: the primary key of Rating, the unique index
  \<^verbatim>\<open>Rating_userId_storeId_key\<close>, and the two foreign keys of Rating.
\<close>

definition db_ok :: "db \<Rightarrow> bool" where
  "db_ok d \<longleftrightarrow>
     distinct (map r_id (ratings d)) \<and>
     distinct (map (\<lambda>r. (r_userId r, r_storeId r)) (ratings d)) \<and>
     list_all (\<lambda>r. r_userId r \<in> set (map u_id (users d)) \<and>
                   r_storeId r \<in> set (map s_id (stores d))) (ratings d)"

text \<open>\<^verbatim>\<open>prisma.rating.findUnique({ where: { userId_storeId: { userId, storeId } } })\<close>\<close>

definition rating_findUnique :: "db \<Rightarrow> string \<Rightarrow> string \<Rightarrow> Rating option" where
  "rating_findUnique d uid sid =
     find (\<lambda>r. r_userId r = uid \<and> r_storeId r = sid) (ratings d)"

text \<open>
  Modelled from the spec: \<^verbatim>\<open>prisma/schema.prisma\<close> is not among the sources. The spec
  gives Rating.rating as an integer, and \<^verbatim>\<open>migration.sql\<close> declares the column
  INTEGER; the Prisma client rejects a write of a non-integer number to such a field
  before it reaches the database.
\<close>

definition is_Int :: "rat \<Rightarrow> bool" where
  "is_Int n \<longleftrightarrow> n = of_int \<lfloor>n\<rfloor>"

text \<open>\<^verbatim>\<open>prisma.rating.update({ where: { id }, data: { rating } })\<close>\<close>

definition set_rating :: "string \<Rightarrow> rat \<Rightarrow> Rating \<Rightarrow> Rating" where
  "set_rating rid v x = (if r_id x = rid then x\<lparr>r_rating := v\<rparr> else x)"

definition rating_update :: "db \<Rightarrow> string \<Rightarrow> rat \<Rightarrow> exn + Rating \<times> db" where
  "rating_update d rid v =
     (if \<not> is_Int v then Inl PrismaValidation
      else (case find (\<lambda>r. r_id r = rid) (ratings d) of
              None \<Rightarrow> Inl PrismaNotFound
            | Some r \<Rightarrow>
                Inr (r\<lparr>r_rating := v\<rparr>,
                     d\<lparr>ratings := map (set_rating rid v) (ratings d)\<rparr>)))"

text \<open>
  \<^verbatim>\<open>prisma.rating.create({ data: { userId, storeId, rating } })\<close>. The id and the
  creation time are the column defaults; they come from the environment and are
  arguments here. The insert is refused on a clash with the primary key or the unique
  index, and on a dangling foreign key.
\<close>

definition rating_create ::
  "db \<Rightarrow> string \<Rightarrow> string \<Rightarrow> string \<Rightarrow> string \<Rightarrow> rat \<Rightarrow> exn + Rating \<times> db" where
  "rating_create d newId now uid sid v =
     (if \<not> is_Int v then Inl PrismaValidation
      else if newId \<in> set (map r_id (ratings d)) \<or>
              (uid, sid) \<in> set (map (\<lambda>r. (r_userId r, r_storeId r)) (ratings d))
        then Inl PrismaUnique
      else if uid \<notin> set (map u_id (users d)) \<or> sid \<notin> set (map s_id (stores d))
        then Inl PrismaForeignKey
      else (let r = \<lparr>r_id = newId, r_userId = uid, r_storeId = sid, r_rating = v,
                      r_createdAt = now\<rparr>
            in Inr (r, d\<lparr>ratings := ratings d @ [r]\<rparr>)))"

section \<open>POST /stores/:id/ratings\<close>

text \<open>
  The handler after \<^verbatim>\<open>authMiddleware\<close>: \<open>me\<close> is \<^verbatim>\<open>req.user\<close>, \<open>sid\<close> is
  \<^verbatim>\<open>req.params.id\<close>, \<open>body\<close> the \<^verbatim>\<open>rating\<close> field of the request body. The
  result pairs the response with the database after the request.
\<close>

definition ratings_handler ::
  "db \<Rightarrow> AuthPayload \<Rightarrow> string \<Rightarrow> jsval \<Rightarrow> string \<Rightarrow> string \<Rightarrow> (failure + Rating) \<times> db" where
  "ratings_handler d me sid body newId now =
     (case ratingSchema body of
        None \<Rightarrow> (Inl (Http 400 ''invalid''), d)
      | Some v \<Rightarrow>
          (case rating_findUnique d (p_id me) sid of
             Some existing \<Rightarrow>
               (case rating_update d (r_id existing) v of
                  Inl e \<Rightarrow> (Inl (Unhandled e), d)
                | Inr (updated, d') \<Rightarrow> (Inr updated, d'))
           | None \<Rightarrow>
               (case rating_create d newId now (p_id me) sid v of
                  Inl e \<Rightarrow> (Inl (Unhandled e), d)
                | Inr (created, d') \<Rightarrow> (Inr created, d'))))"

definition submitRating ::
  "(string \<Rightarrow> AuthPayload option) \<Rightarrow> db \<Rightarrow> string option \<Rightarrow> string \<Rightarrow> jsval \<Rightarrow>
     string \<Rightarrow> string \<Rightarrow> (failure + Rating) \<times> db" where
  "submitRating verifyToken d header sid body newId now =
     (case authMiddleware verifyToken header of
        Inl e \<Rightarrow> (Inl e, d)
      | Inr me \<Rightarrow> ratings_handler d me sid body newId now)"

text \<open>The Rating rows of a (user, store) pair.\<close>

definition rows_for :: "db \<Rightarrow> string \<Rightarrow> string \<Rightarrow> Rating list" where
  "rows_for d uid sid = filter (\<lambda>r. r_userId r = uid \<and> r_storeId r = sid) (ratings d)"

text \<open>
  The error kinds of the spec as the server answers them: 400 for a validation error,
  403 for Forbidden, 404 for NotFound.
\<close>

fun is_ValidationError :: "failure + 'a \<Rightarrow> bool" where
  "is_ValidationError (Inl (Http st e)) = (st = 400)"
| "is_ValidationError _ = False"

fun is_Forbidden :: "failure + 'a \<Rightarrow> bool" where
  "is_Forbidden (Inl (Http st e)) = (st = 403)"
| "is_Forbidden _ = False"

fun is_NotFound :: "failure + 'a \<Rightarrow> bool" where
  "is_NotFound (Inl (Http st e)) = (st = 404)"
| "is_NotFound _ = False"

section \<open>PATCH /users/:id/password\<close>

text \<open>JavaScript truthiness, for \<^verbatim>\<open>if (!newPassword)\<close>.\<close>

fun truthy :: "jsval \<Rightarrow> bool" where
  "truthy JUndefined = False"
| "truthy JNull = False"
| "truthy (JBool b) = b"
| "truthy (JNumber n) = (n \<noteq> 0)"
| "truthy (JString s) = (s \<noteq> [])"
| "truthy JObject = True"

text \<open>
  \<^verbatim>\<open>hashPassword\<close>: bcrypt with a salt drawn by the library. The hash function with
  its salt is the parameter \<open>bcrypt\<close>; on an argument that is not a string the library
  throws.
\<close>

fun hashPassword :: "(string \<Rightarrow> string) \<Rightarrow> jsval \<Rightarrow> exn + string" where
  "hashPassword bcrypt (JString s) = Inr (bcrypt s)"
| "hashPassword bcrypt _ = Inl BcryptIllegalArguments"

text \<open>\<^verbatim>\<open>prisma.user.update({ where: { id }, data: { password } })\<close>: throws when no
  row has the id.\<close>

definition user_update_password :: "db \<Rightarrow> string \<Rightarrow> string \<Rightarrow> exn + db" where
  "user_update_password d uid pwd =
     (case find (\<lambda>u. u_id u = uid) (users d) of
        None \<Rightarrow> Inl PrismaNotFound
      | Some u \<Rightarrow>
          Inr (d\<lparr>users := map (\<lambda>u. if u_id u = uid then u\<lparr>u_password := pwd\<rparr> else u)
                                (users d)\<rparr>))"

text \<open>The handler; its success response is \<^verbatim>\<open>{ success: true }\<close>. It never reads
  \<^verbatim>\<open>req.user\<close>, which is the argument \<open>me\<close>.\<close>

definition password_handler ::
  "(string \<Rightarrow> string) \<Rightarrow> db \<Rightarrow> AuthPayload \<Rightarrow> string \<Rightarrow> jsval \<Rightarrow> (failure + bool) \<times> db" where
  "password_handler bcrypt d me target newPassword =
     (if \<not> truthy newPassword then (Inl (Http 400 ''invalid''), d)
      else (case hashPassword bcrypt newPassword of
              Inl e \<Rightarrow> (Inl (Unhandled e), d)
            | Inr pwd \<Rightarrow>
                (case user_update_password d target pwd of
                   Inl e \<Rightarrow> (Inl (Unhandled e), d)
                 | Inr d' \<Rightarrow> (Inr True, d'))))"

definition updatePassword ::
  "(string \<Rightarrow> AuthPayload option) \<Rightarrow> (string \<Rightarrow> string) \<Rightarrow> db \<Rightarrow> string option \<Rightarrow>
     string \<Rightarrow> jsval \<Rightarrow> (failure + bool) \<times> db" where
  "updatePassword verifyToken bcrypt d header target newPassword =
     (case authMiddleware verifyToken header of
        Inl e \<Rightarrow> (Inl e, d)
      | Inr me \<Rightarrow> password_handler bcrypt d me target newPassword)"

section \<open>Sample data\<close>

text \<open>
  The mock records of \<^verbatim>\<open>DataContext.tsx\<close> as a database (with shortened addresses and
  dates), a token table standing for the JWT check, and a stand-in for bcrypt.
\<close>

definition sample_users :: "UserRow list" where
  "sample_users =
     [\<lparr>u_id = ''1'', u_name = ''System Administrator Account'',
       u_email = ''admin@storerating.com'', u_address = ''123 Admin Street'',
       u_role = admin, u_createdAt = ''2025-12-09'', u_password = ''h1''\<rparr>,
      \<lparr>u_id = ''2'', u_name = ''Store Owner Demo Account'',
       u_email = ''owner@storerating.com'', u_address = ''456 Business Avenue'',
       u_role = store_owner, u_createdAt = ''2025-12-09'', u_password = ''h2''\<rparr>,
      \<lparr>u_id = ''3'', u_name = ''Normal User Demo Account'',
       u_email = ''user@storerating.com'', u_address = ''789 Customer Lane'',
       u_role = normal_user, u_createdAt = ''2025-12-09'', u_password = ''h3''\<rparr>,
      \<lparr>u_id = ''4'', u_name = ''Another Normal User Account'',
       u_email = ''user2@storerating.com'', u_address = ''321 Buyer Road'',
       u_role = normal_user, u_createdAt = ''2025-12-09'', u_password = ''h4''\<rparr>]"

definition sample_stores :: "Store list" where
  "sample_stores =
     [\<lparr>s_id = ''1'', s_name = ''Premium Electronics Store'',
       s_address = ''100 Tech Boulevard'', s_ownerId = ''2'', s_createdAt = ''2025-12-09''\<rparr>,
      \<lparr>s_id = ''2'', s_name = ''Organic Foods Marketplace'',
       s_address = ''200 Green Avenue'', s_ownerId = ''2'', s_createdAt = ''2025-12-09''\<rparr>]"

definition sample_ratings :: "Rating list" where
  "sample_ratings =
     [\<lparr>r_id = ''1'', r_userId = ''3'', r_storeId = ''1'', r_rating = 4,
       r_createdAt = ''2025-12-09''\<rparr>,
      \<lparr>r_id = ''2'', r_userId = ''4'', r_storeId = ''1'', r_rating = 5,
       r_createdAt = ''2025-12-09''\<rparr>,
      \<lparr>r_id = ''3'', r_userId = ''3'', r_storeId = ''2'', r_rating = 3,
       r_createdAt = ''2025-12-09''\<rparr>]"

definition sample_db :: db where
  "sample_db = \<lparr>users = sample_users, stores = sample_stores, ratings = sample_ratings\<rparr>"

definition sample_verifyToken :: "string \<Rightarrow> AuthPayload option" where
  "sample_verifyToken t =
     (if t = ''A'' then Some \<lparr>p_id = ''1'', p_role = admin\<rparr>
      else if t = ''O'' then Some \<lparr>p_id = ''2'', p_role = store_owner\<rparr>
      else if t = ''U'' then Some \<lparr>p_id = ''3'', p_role = normal_user\<rparr>
      else if t = ''V'' then Some \<lparr>p_id = ''4'', p_role = normal_user\<rparr>
      else None)"

definition sample_bcrypt :: "string \<Rightarrow> string" where
  "sample_bcrypt s = ''$2a$10$'' @ s"

text \<open>The users as the client holds them, without the password column.\<close>

definition sample_client_users :: "User list" where
  "sample_client_users = map User.truncate sample_users"

text \<open>The sample ratings with a third rating for store 1, which then has 4, 5 and 5.\<close>

definition sample_ratings_455 :: "Rating list" where
  "sample_ratings_455 =
     sample_ratings @
     [\<lparr>r_id = ''4'', r_userId = ''1'', r_storeId = ''1'', r_rating = 5,
       r_createdAt = ''2025-12-09''\<rparr>]"



section \<open>Average rating\<close>

text \<open>
  \<^verbatim>\<open>prisma.rating.aggregate({ where: { storeId }, _avg: { rating: true },
  _count: { rating: true } })\<close>: the average is \<^verbatim>\<open>null\<close> over no rows. The column
  is INTEGER: the storage adds the integers up exactly, takes the sum as a double and
  divides it by the count.
\<close>

record Aggregate =
  avg_rating :: "num option"
  count_rating :: nat

definition rating_aggregate :: "db \<Rightarrow> string \<Rightarrow> Aggregate" where
  "rating_aggregate d sid =
     (let rows = filter (\<lambda>r. r_storeId r = sid) (ratings d)
      in \<lparr>avg_rating = (if rows = [] then None
                        else Some (num_div (fl (sum_list (map r_rating rows))) (length rows))),
          count_rating = length rows\<rparr>)"

text \<open>\<^verbatim>\<open>avg._avg.rating || 0\<close>: the right operand where the left is \<^verbatim>\<open>null\<close> or 0.\<close>

definition averageRating :: "db \<Rightarrow> string \<Rightarrow> num" where
  "averageRating d sid =
     (case avg_rating (rating_aggregate d sid) of
        None \<Rightarrow> Fin 0
      | Some a \<Rightarrow> if a = Fin 0 then Fin 0 else a)"

text \<open>\<^verbatim>\<open>getStoreAverageRating\<close> of \<^verbatim>\<open>DataContext.tsx\<close>, over the client's ratings.\<close>

definition getStoreAverageRating :: "Rating list \<Rightarrow> string \<Rightarrow> num" where
  "getStoreAverageRating rs storeId =
     (let storeRatings = filter (\<lambda>r. r_storeId r = storeId) rs
      in if length storeRatings = 0 then Fin 0
         else (let sum = foldl (\<lambda>acc r. num_add acc (r_rating r)) (Fin 0) storeRatings
               in num_div sum (length storeRatings)))"

text \<open>
  The rating values of a store and the arithmetic mean of a list of numbers, as exact
  rationals; and the ratings that the data model admits: integers from 1 to 5, fewer than
  \<open>2 ^ 50\<close> of them.
\<close>

definition store_values :: "Rating list \<Rightarrow> string \<Rightarrow> rat list" where
  "store_values rs sid = map r_rating (filter (\<lambda>r. r_storeId r = sid) rs)"

definition mean :: "rat list \<Rightarrow> rat" where
  "mean xs = sum_list xs / of_nat (length xs)"

definition valid_ratings :: "rat list \<Rightarrow> bool" where
  "valid_ratings vs \<longleftrightarrow> list_all (\<lambda>v. is_Int v \<and> 1 \<le> v \<and> v \<le> 5) vs \<and> length vs < 2 ^ 50"

section \<open>Strings, sorting and slicing\<close>

text \<open>
  Text is modelled as ASCII: \<^verbatim>\<open>toLowerCase\<close> maps A to Z onto a to z and leaves every
  other character as it is, and strings compare by their character codes.
\<close>

definition toLowerChar :: "char \<Rightarrow> char" where
  "toLowerChar c =
     (let n = (of_char c :: nat) in if 65 \<le> n \<and> n \<le> 90 then char_of (n + 32) else c)"

definition toLowerCase :: "string \<Rightarrow> string" where
  "toLowerCase s = map toLowerChar s"

text \<open>\<^verbatim>\<open>s.includes(t)\<close>\<close>

fun str_includes :: "string \<Rightarrow> string \<Rightarrow> bool" where
  "str_includes [] t = (t = [])"
| "str_includes (c # cs) t = (prefix t (c # cs) \<or> str_includes cs t)"

datatype SortOrder = asc | desc

text \<open>The comparator of both admin pages:
  \<^verbatim>\<open>if (aValue < bValue) return sortOrder === "asc" ? -1 : 1;
  if (aValue > bValue) return sortOrder === "asc" ? 1 : -1; return 0;\<close>\<close>

definition compare_values :: "SortOrder \<Rightarrow> 'k::linorder \<Rightarrow> 'k \<Rightarrow> int" where
  "compare_values sortOrder aValue bValue =
     (if aValue < bValue then (if sortOrder = asc then -1 else 1)
      else if aValue > bValue then (if sortOrder = asc then 1 else -1)
      else 0)"

text \<open>\<^verbatim>\<open>Array.prototype.sort\<close> with a comparator: a stable sort, here by insertion.\<close>

fun insert_sorted :: "('a \<Rightarrow> 'a \<Rightarrow> int) \<Rightarrow> 'a \<Rightarrow> 'a list \<Rightarrow> 'a list" where
  "insert_sorted cmp x [] = [x]"
| "insert_sorted cmp x (y # ys) =
     (if cmp x y \<le> 0 then x # y # ys else y # insert_sorted cmp x ys)"

definition sort_with :: "('a \<Rightarrow> 'a \<Rightarrow> int) \<Rightarrow> 'a list \<Rightarrow> 'a list" where
  "sort_with cmp xs = foldr (insert_sorted cmp) xs []"


section \<open>The admin pages of the client\<close>



subsection \<open>UserManagement\<close>






subsection \<open>StoreManagement\<close>

record StoreWithRating = Store +
  owner :: "User option"
  c_averageRating :: num

datatype StoreSortField = st_name | st_address | st_rating | st_createdAt


text \<open>\<^verbatim>\<open>store.owner?.email.toLowerCase().includes(term)\<close> is \<^verbatim>\<open>undefined\<close>, which
  counts as false, for a store without owner record.\<close>

definition store_matches :: "string \<Rightarrow> StoreWithRating \<Rightarrow> bool" where
  "store_matches term store \<longleftrightarrow>
     str_includes (toLowerCase (s_name store)) term \<or>
     str_includes (toLowerCase (s_address store)) term \<or>
     (case owner store of None \<Rightarrow> False | Some u \<Rightarrow> str_includes (toLowerCase (u_email u)) term)"

definition store_compare ::
  "StoreSortField \<Rightarrow> SortOrder \<Rightarrow> StoreWithRating \<Rightarrow> StoreWithRating \<Rightarrow> int" where
  "store_compare sortField sortOrder a b =
     (case sortField of
        st_rating \<Rightarrow> compare_values sortOrder (c_averageRating a) (c_averageRating b)
      | st_name \<Rightarrow> compare_values sortOrder (s_name a) (s_name b)
      | st_address \<Rightarrow> compare_values sortOrder (s_address a) (s_address b)
      | st_createdAt \<Rightarrow> compare_values sortOrder (s_createdAt a) (s_createdAt b))"

definition filteredStores ::
  "StoreWithRating list \<Rightarrow> string \<Rightarrow> StoreSortField \<Rightarrow> SortOrder \<Rightarrow> StoreWithRating list"
  where
  "filteredStores withRatings searchTerm sortField sortOrder =
     (let result = withRatings;
          result = (if searchTerm \<noteq> [] then
                      (let term = toLowerCase searchTerm in filter (store_matches term) result)
                    else result)
      in sort_with (store_compare sortField sortOrder) result)"





section \<open>The admin listings of the server\<close>

text \<open>
  The \<^verbatim>\<open>where\<close> object of both listings is built from conditions of one shape,
  \<^verbatim>\<open>{ [column]: { contains: q, mode: "insensitive" } }\<close>, joined under \<^verbatim>\<open>OR\<close>.
\<close>

datatype condition = ContainsInsensitive string string

text \<open>
  The database is SQLite (the dialect of \<^verbatim>\<open>migration.sql\<close>, and the README). For
  SQLite the Prisma client has no \<^verbatim>\<open>mode\<close> argument in a string filter: a query
  whose \<^verbatim>\<open>where\<close> holds such a condition is rejected before it runs. \<open>None\<close> is the
  absent \<^verbatim>\<open>OR\<close>, which leaves every row in; an empty \<^verbatim>\<open>OR\<close> matches no row.
\<close>

definition findMany_OR :: "condition list option \<Rightarrow> 'a list \<Rightarrow> exn + 'a list" where
  "findMany_OR conditions rows =
     (case conditions of
        None \<Rightarrow> Inr rows
      | Some cs \<Rightarrow> if cs = [] then Inr [] else Inl PrismaValidation)"

text \<open>
  \<^verbatim>\<open>orderBy: { [sortField]: sortOrder }\<close>: the client library rejects a field that the
  model does not have and an order other than \<^verbatim>\<open>asc\<close> and \<^verbatim>\<open>desc\<close>. Rows with
  equal keys are kept in table order, which is one of the orders the storage layer may
  give them.
\<close>

definition sort_order :: "string \<Rightarrow> SortOrder option" where
  "sort_order s = (if s = ''asc'' then Some asc else if s = ''desc'' then Some desc else None)"

definition orderBy :: "('a \<Rightarrow> string) option \<Rightarrow> SortOrder option \<Rightarrow> 'a list \<Rightarrow> exn + 'a list" where
  "orderBy column ord rows =
     (case (column, ord) of
        (Some key, Some so) \<Rightarrow> Inr (sort_with (\<lambda>a b. compare_values so (key a) (key b)) rows)
      | _ \<Rightarrow> Inl PrismaValidation)"

subsection \<open>GET /admin/stores\<close>

definition store_column :: "string \<Rightarrow> (Store \<Rightarrow> string) option" where
  "store_column f =
     (if f = ''id'' then Some s_id
      else if f = ''name'' then Some s_name
      else if f = ''address'' then Some s_address
      else if f = ''ownerId'' then Some s_ownerId
      else if f = ''createdAt'' then Some s_createdAt
      else None)"

text \<open>The \<^verbatim>\<open>OR\<close> of the \<^verbatim>\<open>where\<close> object built from the query parameter
  \<^verbatim>\<open>q\<close>: absent when \<^verbatim>\<open>q\<close> is absent or the empty string.\<close>

definition admin_stores_where :: "string option \<Rightarrow> condition list option" where
  "admin_stores_where q =
     (case q of
        None \<Rightarrow> None
      | Some t \<Rightarrow> if t = [] then None
                  else Some [ContainsInsensitive ''name'' t, ContainsInsensitive ''address'' t])"

record AdminStore = Store +
  a_owner :: "UserRow option"
  a_averageRating :: num
  a_totalRatings :: nat

definition admin_store_row :: "db \<Rightarrow> Store \<Rightarrow> AdminStore" where
  "admin_store_row d s =
     \<lparr>s_id = s_id s, s_name = s_name s, s_address = s_address s, s_ownerId = s_ownerId s,
      s_createdAt = s_createdAt s,
      a_owner = find (\<lambda>u. u_id u = s_ownerId s) (users d),
      a_averageRating = averageRating d (s_id s),
      a_totalRatings = count_rating (rating_aggregate d (s_id s))\<rparr>"

text \<open>The handler; the query parameters are \<open>None\<close> where they are absent or not
  strings. It reads no page number.\<close>

definition admin_stores ::
  "(string \<Rightarrow> AuthPayload option) \<Rightarrow> db \<Rightarrow> string option \<Rightarrow> string option \<Rightarrow>
     string option \<Rightarrow> string option \<Rightarrow> failure + AdminStore list" where
  "admin_stores verifyToken d header q sortFieldQ sortOrderQ =
     (case authMiddleware verifyToken header of
        Inl e \<Rightarrow> Inl e
      | Inr me \<Rightarrow>
          if p_role me \<noteq> admin then Inl (Http 403 ''forbidden'')
          else (let sortField = (case sortFieldQ of Some f \<Rightarrow> f | None \<Rightarrow> ''createdAt'');
                    sortOrder = (case sortOrderQ of Some s \<Rightarrow> s | None \<Rightarrow> ''desc'')
                in case findMany_OR (admin_stores_where q) (stores d) of
                     Inl e \<Rightarrow> Inl (Unhandled e)
                   | Inr matching \<Rightarrow>
                       (case orderBy (store_column sortField) (sort_order sortOrder) matching of
                          Inl e \<Rightarrow> Inl (Unhandled e)
                        | Inr found \<Rightarrow> Inr (map (admin_store_row d) found))))"

subsection \<open>GET /admin/users\<close>





section \<open>The ratings of the client: the two sides of the merge\<close>

text \<open>
  \<^verbatim>\<open>DataContext.tsx\<close> as it stands in \<^verbatim>\<open>src/unnamed/part_003\<close> holds both sides of an
  unresolved merge. The state is the \<^verbatim>\<open>ratings\<close> array; \<^verbatim>\<open>setRatings\<close> becomes
  the returned list. The argument of \<^verbatim>\<open>addRating\<close> is a Rating without id and
  createdAt; \<open>nowId\<close> and \<open>nowIso\<close> are \<^verbatim>\<open>String(Date.now())\<close> and
  \<^verbatim>\<open>new Date().toISOString()\<close> at the call.
\<close>

record NewRating =
  n_userId :: string
  n_storeId :: string
  n_rating :: rat

definition newRating :: "NewRating \<Rightarrow> string \<Rightarrow> string \<Rightarrow> Rating" where
  "newRating rating nowId nowIso =
     \<lparr>r_id = nowId, r_userId = n_userId rating, r_storeId = n_storeId rating,
      r_rating = n_rating rating, r_createdAt = nowIso\<rparr>"

subsection \<open>The side of the other merge parent\<close>

definition addRating_other :: "string \<Rightarrow> string \<Rightarrow> NewRating \<Rightarrow> Rating list \<Rightarrow> Rating list" where
  "addRating_other nowId nowIso rating prev = prev @ [newRating rating nowId nowIso]"

definition updateRating_other :: "string \<Rightarrow> rat \<Rightarrow> Rating list \<Rightarrow> Rating list" where
  "updateRating_other ratingId v prev =
     map (\<lambda>r. if r_id r = ratingId then r\<lparr>r_rating := v\<rparr> else r) prev"

subsection \<open>The HEAD side\<close>

text \<open>
  What the \<^verbatim>\<open>fetch\<close> of \<^verbatim>\<open>POST /stores/:id/ratings\<close> gives: the promise is
  rejected, or there is a response that is not ok, or an ok response whose body is the
  Rating the server sends.
\<close>

datatype fetched = fetch_rejected | not_ok | ok Rating

text \<open>\<^verbatim>\<open>if (token)\<close> for the item of the local storage: absent or empty is false.\<close>

definition has_token :: "string option \<Rightarrow> bool" where
  "has_token token \<longleftrightarrow> (case token of None \<Rightarrow> False | Some t \<Rightarrow> t \<noteq> [])"

text \<open>\<open>None\<close> is the rejected promise: the state is not set.\<close>

definition addRating_HEAD ::
  "string option \<Rightarrow> fetched \<Rightarrow> string \<Rightarrow> string \<Rightarrow> NewRating \<Rightarrow> Rating list
     \<Rightarrow> Rating list option" where
  "addRating_HEAD token res nowId nowIso rating prev =
     (if has_token token then
        (case res of
           fetch_rejected \<Rightarrow> None
         | ok created \<Rightarrow> Some (prev @ [created])
         | not_ok \<Rightarrow> Some (prev @ [newRating rating nowId nowIso]))
      else Some (prev @ [newRating rating nowId nowIso]))"

definition updateRating_HEAD ::
  "string option \<Rightarrow> fetched \<Rightarrow> string \<Rightarrow> string \<Rightarrow> string \<Rightarrow> rat \<Rightarrow> Rating list
     \<Rightarrow> Rating list option" where
  "updateRating_HEAD token res nowId nowIso ratingId v rs =
     (case find (\<lambda>r. r_id r = ratingId) rs of
        Some existing \<Rightarrow>
          (case addRating_HEAD token res nowId nowIso
                  \<lparr>n_userId = r_userId existing, n_storeId = r_storeId existing, n_rating = v\<rparr>
                  rs of
             None \<Rightarrow> None
           | Some prev \<Rightarrow>
               Some (map (\<lambda>r. if r_id r = ratingId then r\<lparr>r_rating := v\<rparr> else r) prev))
      | None \<Rightarrow>
          Some (map (\<lambda>r. if r_id r = ratingId then r\<lparr>r_rating := v\<rparr> else r) rs))"

subsection \<open>The rating dialog\<close>

definition getUserRating :: "Rating list \<Rightarrow> string \<Rightarrow> string \<Rightarrow> Rating option" where
  "getUserRating rs userId storeId =
     find (\<lambda>r. r_userId r = userId \<and> r_storeId r = storeId) rs"

text \<open>
  \<^verbatim>\<open>handleSubmitRating\<close> of the store list of a user, over the side of the other merge
  parent. \<open>user\<close> is the logged-in user or \<open>None\<close>, \<open>selectedStoreId\<close> the id of the
  store of the dialog or \<open>None\<close>.
\<close>

definition handleSubmitRating_other ::
  "User option \<Rightarrow> string option \<Rightarrow> rat \<Rightarrow> string \<Rightarrow> string \<Rightarrow> Rating list \<Rightarrow> Rating list"
  where
  "handleSubmitRating_other user selectedStoreId pendingRating nowId nowIso rs =
     (case (user, selectedStoreId) of
        (Some u, Some storeId) \<Rightarrow>
          if storeId = [] \<or> pendingRating = 0 then rs
          else (case getUserRating rs (u_id u) storeId of
                  Some existingRating \<Rightarrow>
                    updateRating_other (r_id existingRating) pendingRating rs
                | None \<Rightarrow>
                    addRating_other nowId nowIso
                      \<lparr>n_userId = u_id u, n_storeId = storeId, n_rating = pendingRating\<rparr>
                      rs)
      | _ \<Rightarrow> rs)"

text \<open>The rows of a pair in the client's list, and the invariant of the spec on it.\<close>

definition pair_rows :: "Rating list \<Rightarrow> string \<Rightarrow> string \<Rightarrow> Rating list" where
  "pair_rows rs uid sid = filter (\<lambda>r. r_userId r = uid \<and> r_storeId r = sid) rs"

definition one_per_pair :: "Rating list \<Rightarrow> bool" where
  "one_per_pair rs \<longleftrightarrow> distinct (map (\<lambda>r. (r_userId r, r_storeId r)) rs)"

section \<open>Two requests at once\<close>

text \<open>
  The handler of \<^verbatim>\<open>POST /stores/:id/ratings\<close> awaits the storage twice: the lookup
  \<^verbatim>\<open>findUnique\<close>, then the write (\<^verbatim>\<open>update\<close> or \<^verbatim>\<open>create\<close>). Between two
  awaits the code of a request runs alone, and each storage call is one atomic operation
  on the database, so two requests in flight interleave as whole steps. A request is
  taken here after \<^verbatim>\<open>authMiddleware\<close>, which does not touch the database; its progress
  is \<open>Start\<close>, then \<open>Looked\<close> with the validated value and the row that the lookup
  returned, then \<open>Finished\<close> with its outcome.
\<close>

record request =
  q_me :: AuthPayload
  q_sid :: string
  q_body :: jsval
  q_newId :: string
  q_now :: string

datatype progress = Start | Looked rat "Rating option" | Finished "failure + Rating"

fun step :: "db \<Rightarrow> request \<Rightarrow> progress \<Rightarrow> progress \<times> db" where
  "step d q Start =
     (case ratingSchema (q_body q) of
        None \<Rightarrow> (Finished (Inl (Http 400 ''invalid'')), d)
      | Some v \<Rightarrow> (Looked v (rating_findUnique d (p_id (q_me q)) (q_sid q)), d))"
| "step d q (Looked v (Some existing)) =
     (case rating_update d (r_id existing) v of
        Inl e \<Rightarrow> (Finished (Inl (Unhandled e)), d)
      | Inr (updated, d') \<Rightarrow> (Finished (Inr updated), d'))"
| "step d q (Looked v None) =
     (case rating_create d (q_newId q) (q_now q) (p_id (q_me q)) (q_sid q) v of
        Inl e \<Rightarrow> (Finished (Inl (Unhandled e)), d)
      | Inr (created, d') \<Rightarrow> (Finished (Inr created), d'))"
| "step d q (Finished r) = (Finished r, d)"

datatype who = A | B

fun run :: "who list \<Rightarrow> request \<Rightarrow> request \<Rightarrow> progress \<times> progress \<times> db
              \<Rightarrow> progress \<times> progress \<times> db" where
  "run [] qa qb c = c"
| "run (A # sch) qa qb (pa, pb, d) =
     (case step d qa pa of (pa', d') \<Rightarrow> run sch qa qb (pa', pb, d'))"
| "run (B # sch) qa qb (pa, pb, d) =
     (case step d qb pb of (pb', d') \<Rightarrow> run sch qa qb (pa, pb', d'))"

text \<open>Facts that hold of the two requests and the database along every schedule; they
  serve the proofs only.\<close>

fun is_Finished :: "progress \<Rightarrow> bool" where
  "is_Finished (Finished r) = True"
| "is_Finished _ = False"

fun looked_None :: "progress \<Rightarrow> bool" where
  "looked_None (Looked v None) = True"
| "looked_None _ = False"

fun local_inv :: "db \<Rightarrow> string \<Rightarrow> string \<Rightarrow> rat \<Rightarrow> progress \<Rightarrow> bool" where
  "local_inv d u s v (Looked w None) = (w = v)"
| "local_inv d u s v (Looked w (Some e)) = (w = v \<and> (\<exists>x. rows_for d u s = [x] \<and> r_id x = r_id e))"
| "local_inv d u s v _ = True"

definition base_inv :: "string \<Rightarrow> string \<Rightarrow> string \<Rightarrow> string \<Rightarrow> db \<Rightarrow> bool" where
  "base_inv u s ia ib d \<longleftrightarrow>
     db_ok d \<and> u \<in> set (map u_id (users d)) \<and> s \<in> set (map s_id (stores d)) \<and>
     (rows_for d u s = [] \<longrightarrow> ia \<notin> set (map r_id (ratings d)) \<and> ib \<notin> set (map r_id (ratings d)))"

definition race_inv ::
  "string \<Rightarrow> string \<Rightarrow> rat \<Rightarrow> rat \<Rightarrow> string \<Rightarrow> string \<Rightarrow> progress \<Rightarrow> progress \<Rightarrow> db \<Rightarrow> bool" where
  "race_inv u s va vb ia ib pa pb d \<longleftrightarrow>
     base_inv u s ia ib d \<and> local_inv d u s va pa \<and> local_inv d u s vb pb \<and>
     (is_Finished pa \<or> is_Finished pb \<longrightarrow>
        (\<exists>x. rows_for d u s = [x] \<and> (r_rating x = va \<or> r_rating x = vb))) \<and>
     (looked_None pa \<and> rows_for d u s \<noteq> [] \<longrightarrow> is_Finished pb) \<and>
     (looked_None pb \<and> rows_for d u s \<noteq> [] \<longrightarrow> is_Finished pa)"

fun rank :: "progress \<Rightarrow> nat" where
  "rank Start = 0"
| "rank (Looked v e) = 1"
| "rank (Finished r) = 2"

definition sample_request_A :: request where
  "sample_request_A = \<lparr>q_me = \<lparr>p_id = ''4'', p_role = normal_user\<rparr>, q_sid = ''2'',
     q_body = JNumber 3, q_newId = ''9'', q_now = ''2025-12-10''\<rparr>"

definition sample_request_B :: request where
  "sample_request_B = \<lparr>q_me = \<lparr>p_id = ''4'', p_role = normal_user\<rparr>, q_sid = ''2'',
     q_body = JNumber 5, q_newId = ''10'', q_now = ''2025-12-10''\<rparr>"

section \<open>Facts about lists and the storage operations\<close>

lemma find_by_key:
  "distinct (map f xs) \<Longrightarrow> x \<in> set xs \<Longrightarrow> find (\<lambda>y. f y = f x) xs = Some x"
  by (induction xs) (auto simp: image_iff)

lemma filter_by_key:
  "distinct (map k xs) \<Longrightarrow> x \<in> set xs \<Longrightarrow> filter (\<lambda>y. k y = k x) xs = [x]"
proof (induction xs)
  case Nil
  then show ?case by simp
next
  case (Cons a xs)
  show ?case
  proof (cases "a = x")
    case True
    with Cons.prems have "\<forall>y\<in>set xs. k y \<noteq> k x" by (auto simp: image_iff)
    then have "filter (\<lambda>y. k y = k x) xs = []" by (simp add: filter_empty_conv)
    with True show ?thesis by simp
  next
    case False
    with Cons.prems have "x \<in> set xs" "k a \<noteq> k x" by (auto simp: image_iff)
    with Cons show ?thesis by simp
  qed
qed

lemma find_Some_mem: "find P xs = Some x \<Longrightarrow> x \<in> set xs \<and> P x"
  by (induction xs) (auto split: if_splits)

lemma find_None_filter: "find P xs = None \<Longrightarrow> filter P xs = []"
  by (simp add: find_None_iff filter_empty_conv)

lemma filter_single_find: "filter P xs = [r] \<Longrightarrow> find P xs = Some r"
  by (induction xs) (auto split: if_splits simp: filter_empty_conv find_None_iff)

lemma is_Int_of_int: "is_Int (of_int v)"
  by (simp add: is_Int_def)

lemma set_rating_keys [simp]:
  "r_id (set_rating rid v x) = r_id x"
  "r_userId (set_rating rid v x) = r_userId x"
  "r_storeId (set_rating rid v x) = r_storeId x"
  "r_createdAt (set_rating rid v x) = r_createdAt x"
  by (simp_all add: set_rating_def)

lemma findUnique_rows:
  assumes "db_ok d" "rating_findUnique d uid sid = Some r"
  shows "rows_for d uid sid = [r]"
proof -
  from assms(2) have m: "r \<in> set (ratings d)" and p: "r_userId r = uid \<and> r_storeId r = sid"
    by (auto simp: rating_findUnique_def dest: find_Some_mem)
  from assms(1) have "distinct (map (\<lambda>r. (r_userId r, r_storeId r)) (ratings d))"
    by (simp add: db_ok_def)
  from filter_by_key [OF this m] p show ?thesis
    by (simp add: rows_for_def)
qed

lemma rows_for_findUnique:
  "rows_for d uid sid = [r] \<Longrightarrow> rating_findUnique d uid sid = Some r"
  unfolding rows_for_def rating_findUnique_def by (rule filter_single_find)

lemma rows_for_Nil_findUnique:
  "rows_for d uid sid = [] \<longleftrightarrow> rating_findUnique d uid sid = None"
  by (auto simp: rows_for_def rating_findUnique_def find_None_iff filter_empty_conv)

lemma rating_update_found:
  assumes "db_ok d" "r \<in> set (ratings d)" "is_Int v"
  shows "rating_update d (r_id r) v =
           Inr (r\<lparr>r_rating := v\<rparr>, d\<lparr>ratings := map (set_rating (r_id r) v) (ratings d)\<rparr>)"
proof -
  from assms(1) have "distinct (map r_id (ratings d))" by (simp add: db_ok_def)
  from find_by_key [OF this assms(2)] assms(3) show ?thesis
    by (simp add: rating_update_def)
qed

lemma db_ok_update:
  assumes "db_ok d"
  shows "db_ok (d\<lparr>ratings := map (set_rating rid v) (ratings d)\<rparr>)"
  using assms by (simp add: db_ok_def o_def list_all_iff)

lemma rows_for_update:
  "rows_for (d\<lparr>ratings := map (set_rating rid v) (ratings d)\<rparr>) uid sid =
     map (set_rating rid v) (rows_for d uid sid)"
  by (simp add: rows_for_def filter_map o_def)

lemma db_ok_create:
  assumes "db_ok d" "rating_findUnique d uid sid = None"
    "newId \<notin> set (map r_id (ratings d))"
    "uid \<in> set (map u_id (users d))" "sid \<in> set (map s_id (stores d))"
  shows "db_ok (d\<lparr>ratings := ratings d @ [\<lparr>r_id = newId, r_userId = uid, r_storeId = sid,
                                        r_rating = v, r_createdAt = now\<rparr>]\<rparr>)"
  using assms by (auto simp: db_ok_def rating_findUnique_def find_None_iff)

lemma rows_for_create:
  assumes "rating_findUnique d uid sid = None"
  shows "rows_for (d\<lparr>ratings := ratings d @ [\<lparr>r_id = newId, r_userId = uid, r_storeId = sid,
                                        r_rating = v, r_createdAt = now\<rparr>]\<rparr>) uid sid
         = [\<lparr>r_id = newId, r_userId = uid, r_storeId = sid, r_rating = v, r_createdAt = now\<rparr>]"
  using assms by (simp add: rows_for_def rating_findUnique_def find_None_filter)

lemma handler_update:
  assumes ok: "db_ok d" and v: "ratingSchema body = Some v" "is_Int v"
    and f: "rating_findUnique d (p_id me) sid = Some r"
  shows "ratings_handler d me sid body newId now =
           (Inr (r\<lparr>r_rating := v\<rparr>),
            d\<lparr>ratings := map (set_rating (r_id r) v) (ratings d)\<rparr>)"
proof -
  from f have "r \<in> set (ratings d)"
    by (auto simp: rating_findUnique_def dest: find_Some_mem)
  from rating_update_found [OF ok this v(2)] v(1) f show ?thesis
    by (simp add: ratings_handler_def)
qed

lemma handler_create:
  assumes v: "ratingSchema body = Some v" "is_Int v"
    and f: "rating_findUnique d (p_id me) sid = None"
    and fresh: "newId \<notin> set (map r_id (ratings d))"
    and fk: "p_id me \<in> set (map u_id (users d))" "sid \<in> set (map s_id (stores d))"
  shows "ratings_handler d me sid body newId now =
           (Inr \<lparr>r_id = newId, r_userId = p_id me, r_storeId = sid, r_rating = v,
                 r_createdAt = now\<rparr>,
            d\<lparr>ratings := ratings d @ [\<lparr>r_id = newId, r_userId = p_id me, r_storeId = sid,
                                        r_rating = v, r_createdAt = now\<rparr>]\<rparr>)"
proof -
  from f have "(p_id me, sid) \<notin> set (map (\<lambda>r. (r_userId r, r_storeId r)) (ratings d))"
    by (auto simp: rating_findUnique_def find_None_iff)
  with v f fresh fk show ?thesis
    by (simp add: ratings_handler_def rating_create_def Let_def)
qed

lemma str_includes_sublist: "str_includes s t \<longleftrightarrow> sublist t s"
  by (induction s) (simp_all add: sublist_Cons_right)





lemma set_insert_sorted: "set (insert_sorted cmp x xs) = insert x (set xs)"
  by (induction xs) auto

lemma set_sort_with: "set (sort_with cmp xs) = set xs"
  unfolding sort_with_def by (induction xs) (simp_all add: set_insert_sorted)



text \<open>
  The admin page of the client does search the email of the owner: with a search term,
  a store is listed exactly when the lower-cased term is a substring of its lower-cased
  name, address or owner email.
\<close>

lemma filteredStores_member:
  assumes "searchTerm \<noteq> []"
  shows "x \<in> set (filteredStores ws searchTerm sf so)
           \<longleftrightarrow> x \<in> set ws \<and>
               (sublist (toLowerCase searchTerm) (toLowerCase (s_name x)) \<or>
                sublist (toLowerCase searchTerm) (toLowerCase (s_address x)) \<or>
                (\<exists>u. owner x = Some u \<and>
                     sublist (toLowerCase searchTerm) (toLowerCase (u_email u))))"
  using assms
  by (auto simp: filteredStores_def set_sort_with store_matches_def str_includes_sublist
      split: option.splits)

lemma pair_rows_update_other:
  "pair_rows (updateRating_other rid v rs) uid sid =
     map (\<lambda>r. if r_id r = rid then r\<lparr>r_rating := v\<rparr> else r) (pair_rows rs uid sid)"
  by (simp add: pair_rows_def updateRating_other_def filter_map o_def if_distrib cong: if_cong)

lemma one_per_pair_update_other:
  "one_per_pair (updateRating_other rid v rs) = one_per_pair rs"
proof -
  have "map (\<lambda>r. (r_userId r, r_storeId r)) (updateRating_other rid v rs)
          = map (\<lambda>r. (r_userId r, r_storeId r)) rs"
    by (simp add: updateRating_other_def o_def if_distrib cong: if_cong)
  then show ?thesis by (simp add: one_per_pair_def)
qed

text \<open>The handler is its two steps run one after the other.\<close>

lemma handler_is_two_steps:
  "(case step d \<lparr>q_me = me, q_sid = sid, q_body = body, q_newId = newId, q_now = now\<rparr> Start of
      (p, d') \<Rightarrow> step d' \<lparr>q_me = me, q_sid = sid, q_body = body, q_newId = newId, q_now = now\<rparr> p)
   = (Finished (fst (ratings_handler d me sid body newId now)),
      snd (ratings_handler d me sid body newId now))"
  by (auto simp: ratings_handler_def split: option.splits sum.splits)

lemma race_inv_sym: "race_inv u s va vb ia ib pa pb d \<longleftrightarrow> race_inv u s vb va ib ia pb pa d"
  by (auto simp: race_inv_def base_inv_def)

lemma rows_for_cases:
  assumes "db_ok d"
  obtains "rows_for d u s = []" "rating_findUnique d u s = None"
  | x where "rows_for d u s = [x]" "rating_findUnique d u s = Some x"
proof (cases "rating_findUnique d u s")
  case None
  then show ?thesis using that(1) by (simp add: rows_for_Nil_findUnique)
next
  case (Some x)
  with findUnique_rows [OF assms Some] that(2) show ?thesis by simp
qed

lemma rows_mem: "rows_for d u s = [x] \<Longrightarrow> x \<in> set (ratings d) \<and> r_userId x = u \<and> r_storeId x = s"
proof -
  assume "rows_for d u s = [x]"
  then have "x \<in> set (filter (\<lambda>r. r_userId r = u \<and> r_storeId r = s) (ratings d))"
    by (simp add: rows_for_def)
  then show ?thesis by simp
qed

lemma local_inv_rows:
  "rows_for d' u s = map f (rows_for d u s) \<Longrightarrow> (\<And>x. r_id (f x) = r_id x)
     \<Longrightarrow> local_inv d u s v p \<Longrightarrow> local_inv d' u s v p"
  by (cases "(d, u, s, v, p)" rule: local_inv.cases) auto

lemma step_A_inv:
  assumes i: "race_inv u s va vb ia ib pa pb d"
    and q: "ratingSchema (q_body qa) = Some va" "is_Int va" "p_id (q_me qa) = u" "q_sid qa = s"
      "q_newId qa = ia"
    and st: "step d qa pa = (pa', d')"
  shows "race_inv u s va vb ia ib pa' pb d'"
proof -
  from i have ok: "db_ok d" and usr: "u \<in> set (map u_id (users d))"
    and sto: "s \<in> set (map s_id (stores d))"
    by (simp_all add: race_inv_def base_inv_def)
  show ?thesis
  proof (cases pa)
    case Start
    show ?thesis
    proof (cases rule: rows_for_cases [OF ok, of u s])
      case 1
      with Start st q i show ?thesis by (auto simp: race_inv_def)
    next
      case (2 x)
      with Start st q i show ?thesis by (auto simp: race_inv_def)
    qed
  next
    case (Looked w e)
    from i Looked have w: "w = va" by (cases e) (auto simp: race_inv_def)
    show ?thesis
    proof (cases e)
      case None
      show ?thesis
      proof (cases rule: rows_for_cases [OF ok, of u s])
        case 1
        let ?r = "\<lparr>r_id = ia, r_userId = u, r_storeId = s, r_rating = va, r_createdAt = q_now qa\<rparr>"
        let ?d = "d\<lparr>ratings := ratings d @ [?r]\<rparr>"
        from i 1 have fresh: "ia \<notin> set (map r_id (ratings d))" by (simp add: race_inv_def base_inv_def)
        from 1 have pair: "(u, s) \<notin> set (map (\<lambda>r. (r_userId r, r_storeId r)) (ratings d))"
          by (auto simp: rating_findUnique_def find_None_iff)
        from st Looked None w q fresh pair usr sto
        have res: "pa' = Finished (Inr ?r)" "d' = ?d"
          by (auto simp: rating_create_def Let_def)
        have ok': "db_ok ?d" by (rule db_ok_create [OF ok 1(2) fresh usr sto])
        have rows': "rows_for ?d u s = [?r]" by (rule rows_for_create [OF 1(2)])
        from i 1 have lb: "local_inv ?d u s vb pb"
          by (cases "(d, u, s, vb, pb)" rule: local_inv.cases) (auto simp: race_inv_def)
        from ok' rows' lb usr sto res show ?thesis
          by (simp add: race_inv_def base_inv_def)
      next
        case (2 x)
        then have pair: "(u, s) \<in> set (map (\<lambda>r. (r_userId r, r_storeId r)) (ratings d))"
          using rows_mem [of d u s x] by force
        from st Looked None w q pair have res: "pa' = Finished (Inl (Unhandled PrismaUnique))" "d' = d"
          by (auto simp: rating_create_def)
        from i Looked None 2 have "is_Finished pb" by (simp add: race_inv_def)
        with i res show ?thesis by (auto simp: race_inv_def)
      qed
    next
      case (Some e')
      with i Looked obtain x where x: "rows_for d u s = [x]" "r_id x = r_id e'"
        by (auto simp: race_inv_def)
      let ?d = "d\<lparr>ratings := map (set_rating (r_id x) va) (ratings d)\<rparr>"
      from rows_mem [OF x(1)] have m: "x \<in> set (ratings d)" by simp
      from rating_update_found [OF ok m q(2)] st Looked Some w x(2)
      have res: "pa' = Finished (Inr (x\<lparr>r_rating := va\<rparr>))" "d' = ?d"
        by auto
      have ok': "db_ok ?d" by (rule db_ok_update [OF ok])
      have rows': "rows_for ?d u s = [x\<lparr>r_rating := va\<rparr>]"
        using x(1) by (simp add: rows_for_update set_rating_def)
      have rr: "rows_for ?d u s = map (set_rating (r_id x) va) (rows_for d u s)"
        by (rule rows_for_update)
      from i have "local_inv d u s vb pb" by (simp add: race_inv_def)
      from local_inv_rows [OF rr _ this] have lb: "local_inv ?d u s vb pb" by simp
      from ok' rows' lb usr sto res show ?thesis
        by (simp add: race_inv_def base_inv_def)
    qed
  next
    case (Finished r)
    with st i show ?thesis by (auto simp: race_inv_def)
  qed
qed

lemma rank_le: "rank p \<le> 2"
  by (cases p) auto

lemma step_B_inv:
  assumes i: "race_inv u s va vb ia ib pa pb d"
    and q: "ratingSchema (q_body qb) = Some vb" "is_Int vb" "p_id (q_me qb) = u" "q_sid qb = s"
      "q_newId qb = ib"
    and st: "step d qb pb = (pb', d')"
  shows "race_inv u s va vb ia ib pa pb' d'"
proof -
  from i have "race_inv u s vb va ib ia pb pa d" by (simp add: race_inv_sym)
  from step_A_inv [OF this q st] show ?thesis by (simp add: race_inv_sym)
qed

lemma step_rank:
  assumes "ratingSchema (q_body q) = Some v"
  shows "rank (fst (step d q p)) = min 2 (Suc (rank p))"
proof (cases p)
  case Start
  with assms show ?thesis by simp
next
  case (Looked w e)
  then show ?thesis
    by (cases e) (auto split: sum.splits)
next
  case (Finished r)
  then show ?thesis by simp
qed

lemma run_inv:
  assumes qa: "ratingSchema (q_body qa) = Some va" "is_Int va" "p_id (q_me qa) = u"
      "q_sid qa = s" "q_newId qa = ia"
    and qb: "ratingSchema (q_body qb) = Some vb" "is_Int vb" "p_id (q_me qb) = u"
      "q_sid qb = s" "q_newId qb = ib"
  shows "race_inv u s va vb ia ib pa pb d \<Longrightarrow> run sch qa qb (pa, pb, d) = (pa', pb', d')
     \<Longrightarrow> race_inv u s va vb ia ib pa' pb' d' \<and>
         rank pa' = min 2 (rank pa + count_list sch A) \<and>
         rank pb' = min 2 (rank pb + count_list sch B)"
proof (induction sch arbitrary: pa pb d)
  case Nil
  with rank_le [of pa] rank_le [of pb] show ?case by simp
next
  case (Cons w sch)
  show ?case
  proof (cases w)
    case A
    obtain p1 d1 where st: "step d qa pa = (p1, d1)" by (cases "step d qa pa")
    from step_A_inv [OF Cons.prems(1) qa st] have i1: "race_inv u s va vb ia ib p1 pb d1" .
    from Cons.prems(2) A st have "run sch qa qb (p1, pb, d1) = (pa', pb', d')" by simp
    from Cons.IH [OF i1 this] step_rank [OF qa(1), of d pa] st A show ?thesis
      by (auto simp: min_def)
  next
    case B
    obtain p1 d1 where st: "step d qb pb = (p1, d1)" by (cases "step d qb pb")
    from step_B_inv [OF Cons.prems(1) qb st] have i1: "race_inv u s va vb ia ib pa p1 d1" .
    from Cons.prems(2) B st have "run sch qa qb (pa, p1, d1) = (pa', pb', d')" by simp
    from Cons.IH [OF i1 this] step_rank [OF qb(1), of d pb] st B show ?thesis
      by (auto simp: min_def)
  qed
qed

lemma rank_2: "rank p = 2 \<Longrightarrow> \<exists>r. p = Finished r"
  by (cases p) auto

text \<open>Rounding to the nearest double: the exponent, the error of rounding to an integer,
  exactness on the integers below \<open>2 ^ 53\<close>, and nearness on the range of the ratings.\<close>

lemma ilog2_bounds:
  assumes "0 < x"
  shows "2 powi ilog2 x \<le> x \<and> x < 2 powi (ilog2 x + 1)"
proof -
  obtain a b where q: "quotient_of x = (a, b)" by (cases "quotient_of x")
  then have b: "0 < b" and x: "x = of_int a / of_int b"
    by (auto dest: quotient_of_denom_pos quotient_of_div)
  with assms have a: "0 < a" by (simp add: zero_less_divide_iff)
  let ?A = "bitlen a" and ?B = "bitlen b"
  from bitlen_bounds [OF a] have "(2::int) ^ nat (?A - 1) \<le> a" "a < 2 ^ nat ?A" by simp_all
  then have "rat_of_int (2 ^ nat (?A - 1)) \<le> of_int a" "rat_of_int a < of_int (2 ^ nat ?A)"
    by (simp_all only: of_int_le_iff of_int_less_iff)
  moreover have "1 \<le> ?A" using a by (auto simp: bitlen_alt_def)
  ultimately have a1: "(2::rat) powi (?A - 1) \<le> of_int a" and a2: "rat_of_int a < 2 powi ?A"
    by (simp_all add: power_int_def)
  from bitlen_bounds [OF b] have "(2::int) ^ nat (?B - 1) \<le> b" "b < 2 ^ nat ?B" by simp_all
  then have "rat_of_int (2 ^ nat (?B - 1)) \<le> of_int b" "rat_of_int b < of_int (2 ^ nat ?B)"
    by (simp_all only: of_int_le_iff of_int_less_iff)
  moreover have "1 \<le> ?B" using b by (auto simp: bitlen_alt_def)
  ultimately have b1: "(2::rat) powi (?B - 1) \<le> of_int b" and b2: "rat_of_int b < 2 powi ?B"
    by (simp_all add: power_int_def)
  have bpos: "0 < rat_of_int b" using b by simp
  have up: "x < 2 powi (?A - ?B + 1)"
  proof -
    have "x * 2 powi (?B - 1) \<le> x * of_int b"
      using b1 assms by (simp add: mult_left_mono)
    also have "\<dots> = of_int a" using bpos by (simp add: x)
    also have "\<dots> < 2 powi ?A" by (rule a2)
    finally have "x * 2 powi (?B - 1) < 2 powi ?A" .
    then have "x < 2 powi ?A / 2 powi (?B - 1)"
      by (simp add: pos_less_divide_eq)
    also have "\<dots> = 2 powi (?A - (?B - 1))" by (simp add: power_int_diff)
    finally show ?thesis by (simp add: algebra_simps)
  qed
  have lo: "2 powi (?A - ?B - 1) \<le> x"
  proof -
    have "2 powi (?A - 1) \<le> rat_of_int a" by (rule a1)
    also have "\<dots> = x * of_int b" using bpos by (simp add: x)
    also have "\<dots> \<le> x * 2 powi ?B" using b2 assms by (simp add: mult_left_mono)
    finally have "2 powi (?A - 1) / 2 powi ?B \<le> x"
      by (simp add: pos_divide_le_eq)
    moreover have "(2::rat) powi (?A - 1) / 2 powi ?B = 2 powi (?A - 1 - ?B)"
      by (simp add: power_int_diff)
    ultimately show ?thesis by (simp add: algebra_simps)
  qed
  show ?thesis
  proof (cases "2 powi (?A - ?B) \<le> x")
    case True
    with q up show ?thesis by (simp add: ilog2_def)
  next
    case False
    with q lo show ?thesis by (simp add: ilog2_def not_le)
  qed
qed

lemma ilog2_eq:
  assumes "2 powi e \<le> x" "x < 2 powi (e + 1)"
  shows "ilog2 x = e"
proof -
  have "(0::rat) < 2 powi e" by simp
  from this assms(1) have pos: "0 < x" by (rule less_le_trans)
  from ilog2_bounds [OF pos] have b: "2 powi ilog2 x \<le> x" "x < 2 powi (ilog2 x + 1)" by simp_all
  have "ilog2 x < e + 1"
  proof (rule ccontr)
    assume "\<not> ilog2 x < e + 1"
    then have "(2::rat) powi (e + 1) \<le> 2 powi ilog2 x"
      by (intro power_int_increasing) simp_all
    with b(1) assms(2) show False by simp
  qed
  moreover have "e < ilog2 x + 1"
  proof (rule ccontr)
    assume "\<not> e < ilog2 x + 1"
    then have "(2::rat) powi (ilog2 x + 1) \<le> 2 powi e"
      by (intro power_int_increasing) simp_all
    with b(2) assms(1) show False by simp
  qed
  ultimately show ?thesis by simp
qed

lemma round_even_int [simp]: "round_even (of_int k) = k"
  by (simp add: round_even_def)

lemma round_even_err: "\<bar>of_int (round_even m) - m\<bar> \<le> 1 / 2"
proof -
  have f: "rat_of_int \<lfloor>m\<rfloor> \<le> m" "m < rat_of_int \<lfloor>m\<rfloor> + 1" by linarith+
  consider "m - of_int \<lfloor>m\<rfloor> < 1 / 2" | "1 / 2 < m - of_int \<lfloor>m\<rfloor>"
    | "m - of_int \<lfloor>m\<rfloor> = 1 / 2" by linarith
  then show ?thesis
  proof cases
    case 1
    then have "round_even m = \<lfloor>m\<rfloor>" by (simp add: round_even_def Let_def)
    with f 1 show ?thesis by linarith
  next
    case 2
    then have "round_even m = \<lfloor>m\<rfloor> + 1" by (simp add: round_even_def Let_def)
    then have "rat_of_int (round_even m) = of_int \<lfloor>m\<rfloor> + 1" by simp
    with f 2 show ?thesis by linarith
  next
    case 3
    then have "round_even m = \<lfloor>m\<rfloor> \<or> round_even m = \<lfloor>m\<rfloor> + 1"
      by (simp add: round_even_def Let_def)
    then have "rat_of_int (round_even m) = of_int \<lfloor>m\<rfloor> \<or>
        rat_of_int (round_even m) = of_int \<lfloor>m\<rfloor> + 1" by auto
    with f 3 show ?thesis by linarith
  qed
qed

lemma fl_pos_int:
  assumes "0 < k" "k < 2 ^ 53"
  shows "fl_pos (of_int k) = of_int k"
proof -
  let ?e = "ilog2 (of_int k)"
  have pos: "(0::rat) < of_int k" using assms by simp
  from ilog2_bounds [OF pos]
  have b: "2 powi ?e \<le> rat_of_int k" "rat_of_int k < 2 powi (?e + 1)" by simp_all
  have "rat_of_int k < 2 powi 53" using assms(2)
    by (metis of_int_less_iff of_int_numeral of_int_power power_int_numeral)
  with b(1) have "(2::rat) powi ?e < 2 powi 53" by simp
  then have e53: "?e < 53" by (rule power_int_le_imp_less_exp [rotated]) simp_all
  have "(1::rat) \<le> of_int k" using assms by simp
  with b(2) have "(2::rat) powi 0 < 2 powi (?e + 1)" by simp
  then have "0 < ?e + 1"
    by (metis less_le_not_le not_le one_le_numeral power_int_increasing)
  then have e0: "0 \<le> ?e" by simp
  define n where "n = nat (52 - ?e)"
  have n: "52 - ?e = int n" using e53 by (simp add: n_def)
  then have q: "max (?e - 52) (- 1074) = - int n" using e0 by simp
  have p: "(2::rat) powi (- int n) = 1 / 2 ^ n" by (simp add: power_int_minus_divide)
  have "rat_of_int k / 2 powi (- int n) = of_int (k * 2 ^ n)"
    by (simp add: p)
  then have "fl_pos (of_int k) = of_int (k * 2 ^ n) * 2 powi (- int n)"
    unfolding fl_pos_def Let_def q by (simp only: round_even_int)
  also have "\<dots> = of_int k" by (simp add: p)
  finally show ?thesis .
qed

lemma fl_int:
  assumes "0 \<le> k" "k < 2 ^ 53"
  shows "fl (of_int k) = Fin (of_int k)"
proof (cases "k = 0")
  case True
  then show ?thesis by (simp add: fl_def)
next
  case False
  with assms have pos: "0 < k" by simp
  have "rat_of_int k < of_int (2 ^ 53)" using assms(2) by (simp only: of_int_less_iff)
  also have "\<dots> < 2 ^ 1024" by simp
  finally have "rat_of_int k < 2 ^ 1024" .
  with pos fl_pos_int [OF pos assms(2)] show ?thesis
    by (simp add: fl_def)
qed

lemma fl_pos_near:
  assumes "1 \<le> x" "x < 8"
  shows "\<bar>fl_pos x - x\<bar> \<le> 1 / 2 ^ 51"
proof -
  let ?e = "ilog2 x"
  have pos: "0 < x" using assms by simp
  from ilog2_bounds [OF pos]
  have b: "2 powi ?e \<le> x" "x < 2 powi (?e + 1)" by simp_all
  from b(1) assms(2) have "(2::rat) powi ?e < 2 powi 3" by simp
  then have e3: "?e < 3" by (rule power_int_le_imp_less_exp [rotated]) simp_all
  from b(2) assms(1) have "(2::rat) powi 0 < 2 powi (?e + 1)" by simp
  then have "0 < ?e + 1"
    by (metis less_le_not_le not_le one_le_numeral power_int_increasing)
  then have e0: "0 \<le> ?e" by simp
  let ?q = "?e - 52"
  have q: "max (?e - 52) (- 1074) = ?q" using e0 by simp
  have qp: "(0::rat) < 2 powi ?q" by simp
  have "(2::rat) powi ?q \<le> 2 powi (- 50)"
    using e3 by (intro power_int_increasing) simp_all
  then have q50: "(2::rat) powi ?q \<le> 1 / 2 ^ 50" by (simp add: power_int_minus_divide)
  let ?m = "x / 2 powi ?q"
  have "fl_pos x - x = (of_int (round_even ?m) - ?m) * 2 powi ?q"
    unfolding fl_pos_def Let_def q by (simp add: algebra_simps)
  then have "\<bar>fl_pos x - x\<bar> = \<bar>of_int (round_even ?m) - ?m\<bar> * 2 powi ?q"
    by (simp add: abs_mult)
  also have "\<dots> \<le> (1 / 2) * 2 powi ?q"
    using round_even_err [of ?m] by (intro mult_right_mono) simp_all
  also have "\<dots> \<le> (1 / 2) * (1 / 2 ^ 50)"
    using q50 by simp
  finally show ?thesis by simp
qed

lemma fl_near:
  assumes "1 \<le> x" "x \<le> 5"
  shows "\<exists>y. fl x = Fin y \<and> \<bar>y - x\<bar> \<le> 1 / 2 ^ 51"
proof -
  from assms have x8: "x < 8" by simp
  from fl_pos_near [OF assms(1) x8] have n: "\<bar>fl_pos x - x\<bar> \<le> 1 / 2 ^ 51" .
  have "(1::rat) / 2 ^ 51 \<le> 1" by simp
  with n have "fl_pos x \<le> x + 1" by linarith
  with assms have "fl_pos x \<le> 6" by simp
  also have "(6::rat) < 2 ^ 1024" by simp
  finally have "fl_pos x < 2 ^ 1024" .
  with assms n show ?thesis by (simp add: fl_def)
qed

lemma is_Int_obtain:
  assumes "is_Int v"
  obtains j where "v = rat_of_int j"
  using assms by (auto simp: is_Int_def)

lemma valid_sum:
  assumes "list_all (\<lambda>v. is_Int v \<and> 1 \<le> v \<and> v \<le> 5) vs"
  shows "\<exists>K. sum_list vs = rat_of_int K \<and> int (length vs) \<le> K \<and> K \<le> 5 * int (length vs)"
  using assms
proof (induction vs)
  case Nil
  then show ?case by simp
next
  case (Cons v vs)
  then obtain K where K: "sum_list vs = rat_of_int K" "int (length vs) \<le> K"
      "K \<le> 5 * int (length vs)" by auto
  from Cons.prems obtain j where j: "v = rat_of_int j" by (auto elim: is_Int_obtain)
  with Cons.prems have "1 \<le> j" "j \<le> 5" by simp_all
  with K j have "sum_list (v # vs) = rat_of_int (j + K) \<and> int (length (v # vs)) \<le> j + K \<and>
      j + K \<le> 5 * int (length (v # vs))" by simp
  then show ?case by blast
qed

lemma foldl_num_add_exact:
  assumes "list_all (\<lambda>v. is_Int v \<and> 1 \<le> v \<and> v \<le> 5) vs"
    and "0 \<le> k" "k + 5 * int (length vs) < 2 ^ 53"
  shows "foldl num_add (Fin (of_int k)) vs = Fin (of_int k + sum_list vs)"
  using assms
proof (induction vs arbitrary: k)
  case Nil
  then show ?case by simp
next
  case (Cons v vs)
  from Cons.prems(1) obtain j where j: "v = rat_of_int j" by (auto elim: is_Int_obtain)
  with Cons.prems(1) have j15: "1 \<le> j" "j \<le> 5" by simp_all
  with Cons.prems have kj: "0 \<le> k + j" "k + j < 2 ^ 53" "k + j + 5 * int (length vs) < 2 ^ 53"
    by simp_all
  have "num_add (Fin (of_int k)) v = fl (rat_of_int (k + j))" by (simp add: j)
  also have "\<dots> = Fin (rat_of_int (k + j))" by (rule fl_int [OF kj(1,2)])
  finally have step: "num_add (Fin (of_int k)) v = Fin (rat_of_int (k + j))" .
  from Cons.prems(1) have rest: "list_all (\<lambda>v. is_Int v \<and> 1 \<le> v \<and> v \<le> 5) vs" by simp
  from Cons.IH [OF rest kj(1,3)] step j show ?case by simp
qed

lemma foldl_rating:
  "foldl (\<lambda>acc r. num_add acc (r_rating r)) a rows = foldl num_add a (map r_rating rows)"
  by (induction rows arbitrary: a) simp_all

lemma valid_mean_range:
  assumes "valid_ratings vs" "vs \<noteq> []"
  shows "1 \<le> mean vs \<and> mean vs \<le> 5"
proof -
  from assms(1) obtain K where K: "sum_list vs = rat_of_int K" "int (length vs) \<le> K"
      "K \<le> 5 * int (length vs)"
    using valid_sum [of vs] by (auto simp: valid_ratings_def)
  from assms(2) have n: "0 < rat_of_nat (length vs)" by simp
  have a: "rat_of_nat (length vs) \<le> rat_of_int K"
    using K(2) by (metis of_int_le_iff of_int_of_nat_eq)
  have "rat_of_int K \<le> rat_of_int (5 * int (length vs))"
    using K(3) by (simp only: of_int_le_iff)
  then have b: "rat_of_int K \<le> 5 * rat_of_nat (length vs)" by simp
  from a b n show ?thesis
    by (simp add: mean_def K(1) pos_le_divide_eq pos_divide_le_eq)
qed

lemma client_average:
  assumes "valid_ratings (store_values rs sid)" "store_values rs sid \<noteq> []"
  shows "getStoreAverageRating rs sid = fl (mean (store_values rs sid))"
proof -
  let ?vs = "store_values rs sid"
  from assms(1) have v: "list_all (\<lambda>v. is_Int v \<and> 1 \<le> v \<and> v \<le> 5) ?vs"
    and len: "length ?vs < 2 ^ 50" by (simp_all add: valid_ratings_def)
  from len have "int (length ?vs) < 2 ^ 50"
    by (metis of_nat_less_iff of_nat_numeral of_nat_power)
  then have small: "0 + 5 * int (length ?vs) < 2 ^ 53" by simp
  from foldl_num_add_exact [OF v _ small]
  have "foldl num_add (Fin 0) ?vs = Fin (sum_list ?vs)" by simp
  with assms(2) show ?thesis
    by (simp add: getStoreAverageRating_def Let_def foldl_rating mean_def
        store_values_def [symmetric] del: length_0_conv)
      (simp add: store_values_def)
qed

lemma server_average:
  assumes "valid_ratings (store_values (ratings d) sid)" "store_values (ratings d) sid \<noteq> []"
  shows "averageRating d sid = fl (mean (store_values (ratings d) sid))"
proof -
  let ?vs = "store_values (ratings d) sid"
  from assms(1) have v: "list_all (\<lambda>v. is_Int v \<and> 1 \<le> v \<and> v \<le> 5) ?vs"
    and len: "length ?vs < 2 ^ 50" by (simp_all add: valid_ratings_def)
  from valid_sum [OF v] obtain K where K: "sum_list ?vs = rat_of_int K" "int (length ?vs) \<le> K"
      "K \<le> 5 * int (length ?vs)" by blast
  from len have "int (length ?vs) < 2 ^ 50"
    by (metis of_nat_less_iff of_nat_numeral of_nat_power)
  with K have K53: "0 \<le> K" "K < 2 ^ 53" by simp_all
  from fl_int [OF K53] K(1) have s: "fl (sum_list ?vs) = Fin (sum_list ?vs)" by simp
  from valid_mean_range [OF assms] fl_near [of "mean ?vs"]
  obtain y where y: "fl (mean ?vs) = Fin y" "\<bar>y - mean ?vs\<bar> \<le> 1 / 2 ^ 51" "1 \<le> mean ?vs"
    by auto
  have "(1::rat) / 2 ^ 51 < 1" by simp
  with y(2,3) have "y \<noteq> 0" by linarith
  with y(1) have nz: "fl (mean ?vs) \<noteq> Fin 0" by simp
  have "avg_rating (rating_aggregate d sid) = Some (fl (mean ?vs))"
    using assms(2) s by (simp add: rating_aggregate_def Let_def store_values_def mean_def)
  with nz show ?thesis by (simp add: averageRating_def)
qed

lemma fl_14_3: "fl (14 / 3) = Fin (5254199565265579 / 1125899906842624)"
  by code_simp












lemmas sample_defs =
  sample_db_def sample_users_def sample_stores_def sample_ratings_def sample_verifyToken_def
  sample_bcrypt_def

lemma sample_db_ok: "db_ok sample_db"
  by (simp add: db_ok_def sample_defs)

section \<open>Submitting a rating twice\<close>

text \<open>
  Claim C1. For a caller with a valid token whose user exists, an existing store and
  integer values \<open>v1\<close>, \<open>v2\<close> in [1,5], two submissions in a row both succeed; after
  them the pair has exactly one Rating row, its value is \<open>v2\<close>, and its id and
  createdAt are those of the row the first call returned, which are the fresh id and the
  time of the first call when the pair had no row before.
\<close>

theorem submitRating_twice:
  fixes v1 v2 :: int
  assumes ok: "db_ok d"
    and auth: "authMiddleware verifyToken header = Inr me"
    and usr: "p_id me \<in> set (map u_id (users d))"
    and sto: "sid \<in> set (map s_id (stores d))"
    and r1: "1 \<le> v1" "v1 \<le> 5" and r2: "1 \<le> v2" "v2 \<le> 5"
    and fresh: "id1 \<notin> set (map r_id (ratings d))"
  shows "\<exists>r1 d1 d2.
           submitRating verifyToken d header sid (JNumber (of_int v1)) id1 t1 = (Inr r1, d1) \<and>
           submitRating verifyToken d1 header sid (JNumber (of_int v2)) id2 t2
             = (Inr (r1\<lparr>r_rating := of_int v2\<rparr>), d2) \<and>
           rows_for d2 (p_id me) sid = [r1\<lparr>r_rating := of_int v2\<rparr>] \<and>
           (rating_findUnique d (p_id me) sid = None \<longrightarrow> r_id r1 = id1 \<and> r_createdAt r1 = t1)"
proof -
  let ?u = "p_id me"
  have s1: "ratingSchema (JNumber (of_int v1)) = Some (of_int v1)" using r1 by simp
  have s2: "ratingSchema (JNumber (of_int v2)) = Some (of_int v2)" using r2 by simp
  have first: "\<exists>r1 d1. ratings_handler d me sid (JNumber (of_int v1)) id1 t1 = (Inr r1, d1) \<and>
      db_ok d1 \<and> rows_for d1 ?u sid = [r1] \<and>
      (rating_findUnique d ?u sid = None \<longrightarrow> r_id r1 = id1 \<and> r_createdAt r1 = t1)"
  proof (cases "rating_findUnique d ?u sid")
    case None
    from handler_create [OF s1 is_Int_of_int None fresh usr sto]
      db_ok_create [OF ok None fresh usr sto] rows_for_create [OF None]
    show ?thesis by auto
  next
    case (Some r)
    from findUnique_rows [OF ok Some]
    have "rows_for (d\<lparr>ratings := map (set_rating (r_id r) (of_int v1)) (ratings d)\<rparr>) ?u sid
            = [r\<lparr>r_rating := of_int v1\<rparr>]"
      by (simp add: rows_for_update set_rating_def)
    with handler_update [OF ok s1 is_Int_of_int Some] db_ok_update [OF ok] Some
    show ?thesis by auto
  qed
  then obtain r1 d1 where
    h1: "ratings_handler d me sid (JNumber (of_int v1)) id1 t1 = (Inr r1, d1)"
    and ok1: "db_ok d1" and rows1: "rows_for d1 ?u sid = [r1]"
    and new: "rating_findUnique d ?u sid = None \<longrightarrow> r_id r1 = id1 \<and> r_createdAt r1 = t1"
    by (elim exE conjE)
  let ?d2 = "d1\<lparr>ratings := map (set_rating (r_id r1) (of_int v2)) (ratings d1)\<rparr>"
  from rows_for_findUnique [OF rows1]
  have f1: "rating_findUnique d1 ?u sid = Some r1" .
  have h2: "ratings_handler d1 me sid (JNumber (of_int v2)) id2 t2
              = (Inr (r1\<lparr>r_rating := of_int v2\<rparr>), ?d2)"
    by (rule handler_update [OF ok1 s2 is_Int_of_int f1])
  have rows2: "rows_for ?d2 ?u sid = [r1\<lparr>r_rating := of_int v2\<rparr>]"
    using rows1 by (simp add: rows_for_update set_rating_def)
  from h1 h2 rows2 new auth show ?thesis
    by (simp add: submitRating_def)
qed

theorem submitRating_twice_witness:
  "\<exists>r1 d1 d2.
     submitRating sample_verifyToken sample_db (Some ''Bearer V'') ''2'' (JNumber 3)
       ''9'' ''2025-12-10'' = (Inr r1, d1) \<and>
     submitRating sample_verifyToken d1 (Some ''Bearer V'') ''2'' (JNumber 5)
       ''10'' ''2025-12-11'' = (Inr (r1\<lparr>r_rating := 5\<rparr>), d2) \<and>
     rows_for d2 ''4'' ''2'' = [r1\<lparr>r_rating := 5\<rparr>] \<and>
     r_id r1 = ''9'' \<and> r_createdAt r1 = ''2025-12-10''"
proof -
  let ?me = "\<lparr>p_id = ''4'', p_role = normal_user\<rparr>"
  have auth: "authMiddleware sample_verifyToken (Some ''Bearer V'') = Inr ?me"
    by (simp add: authMiddleware_def sample_verifyToken_def)
  have usr: "p_id ?me \<in> set (map u_id (users sample_db))"
    and sto: "''2'' \<in> set (map s_id (stores sample_db))"
    and fresh: "''9'' \<notin> set (map r_id (ratings sample_db))"
    and none: "rating_findUnique sample_db ''4'' ''2'' = None"
    by (simp_all add: sample_defs rating_findUnique_def)
  have v: "(1::int) \<le> 3" "(3::int) \<le> 5" "(1::int) \<le> 5" "(5::int) \<le> 5" by simp_all
  from submitRating_twice [OF sample_db_ok auth usr sto v fresh, of "''2025-12-10''" "''10''"
      "''2025-12-11''"] none
  show ?thesis by simp
qed

section \<open>Validation of the rating value\<close>

text \<open>
  Claim C4 at the request \<^verbatim>\<open>{ "rating": 2.5 }\<close> of user 4 (token V) for store 2:
  \<^verbatim>\<open>ratingSchema\<close> has no integer check, so the body passes validation and the
  handler does not answer 400; the request goes on to the storage operations.
\<close>

theorem ratingSchema_accepts_fraction:
  "ratingSchema (JNumber (5 / 2)) = Some (5 / 2) \<and>
   \<not> is_ValidationError
        (fst (submitRating sample_verifyToken sample_db (Some ''Bearer V'') ''2''
               (JNumber (5 / 2)) ''9'' ''2025-12-10''))"
  by (simp add: submitRating_def authMiddleware_def ratings_handler_def rating_findUnique_def
      rating_create_def Let_def sample_defs)

section \<open>The caller's role\<close>

text \<open>
  Claim C8 at two requests: the administrator (token A) and the store owner (token O)
  each submit a rating for store 2. The handler never reads the role of the caller: both
  requests succeed and each adds a Rating row.
\<close>

theorem submitRating_ignores_role:
  "submitRating sample_verifyToken sample_db (Some ''Bearer A'') ''2'' (JNumber 4)
     ''9'' ''2025-12-10''
     = (Inr \<lparr>r_id = ''9'', r_userId = ''1'', r_storeId = ''2'', r_rating = 4,
              r_createdAt = ''2025-12-10''\<rparr>,
        sample_db\<lparr>ratings := sample_ratings @
          [\<lparr>r_id = ''9'', r_userId = ''1'', r_storeId = ''2'', r_rating = 4,
            r_createdAt = ''2025-12-10''\<rparr>]\<rparr>) \<and>
   submitRating sample_verifyToken sample_db (Some ''Bearer O'') ''2'' (JNumber 4)
     ''9'' ''2025-12-10''
     = (Inr \<lparr>r_id = ''9'', r_userId = ''2'', r_storeId = ''2'', r_rating = 4,
              r_createdAt = ''2025-12-10''\<rparr>,
        sample_db\<lparr>ratings := sample_ratings @
          [\<lparr>r_id = ''9'', r_userId = ''2'', r_storeId = ''2'', r_rating = 4,
            r_createdAt = ''2025-12-10''\<rparr>]\<rparr>)"
  by (simp add: submitRating_def authMiddleware_def ratings_handler_def rating_findUnique_def
      rating_create_def is_Int_def Let_def sample_defs)

section \<open>A store that does not exist\<close>

text \<open>
  Claim C9 as stated fails: a rating of 3 for the store id 7, which no Store has, is not
  answered with NotFound. The insert is refused by the foreign key of the Rating relation
  and the exception is not caught.
\<close>

theorem missing_store_not_NotFound:
  "\<not> is_NotFound
       (fst (submitRating sample_verifyToken sample_db (Some ''Bearer V'') ''7'' (JNumber 3)
              ''9'' ''2025-12-10''))"
  by (simp add: submitRating_def authMiddleware_def ratings_handler_def rating_findUnique_def
      rating_create_def is_Int_def sample_defs)

text \<open>
  Claim C9 as amended. For an authenticated request whose store id references no Store,
  the database is left as it was. The response is 400 \<^verbatim>\<open>invalid\<close> when the rating is
  not a number in [1,5]; otherwise the write is refused by the storage layer and the
  handler ends with the uncaught exception: the foreign-key violation, when the value is
  an integer and the fresh id is unused. There is no NotFound response.
\<close>

theorem missing_store_rejected:
  assumes ok: "db_ok d"
    and auth: "authMiddleware verifyToken header = Inr me"
    and sto: "sid \<notin> set (map s_id (stores d))"
  shows "submitRating verifyToken d header sid body newId now =
           (Inl (case ratingSchema body of
                   None \<Rightarrow> Http 400 ''invalid''
                 | Some v \<Rightarrow>
                     Unhandled (if \<not> is_Int v then PrismaValidation
                                else if newId \<in> set (map r_id (ratings d)) then PrismaUnique
                                else PrismaForeignKey)), d)"
proof -
  from ok sto have "\<forall>r\<in>set (ratings d). r_storeId r \<noteq> sid"
    by (auto simp: db_ok_def list_all_iff)
  then have none: "rating_findUnique d (p_id me) sid = None"
    and pair: "(p_id me, sid) \<notin> set (map (\<lambda>r. (r_userId r, r_storeId r)) (ratings d))"
    by (auto simp: rating_findUnique_def find_None_iff)
  show ?thesis
  proof (cases "ratingSchema body")
    case None
    with auth show ?thesis by (simp add: submitRating_def ratings_handler_def)
  next
    case (Some v)
    with auth none pair sto show ?thesis
      by (simp add: submitRating_def ratings_handler_def rating_create_def)
  qed
qed

theorem missing_store_rejected_witness:
  "submitRating sample_verifyToken sample_db (Some ''Bearer V'') ''7'' (JNumber 3)
     ''9'' ''2025-12-10'' = (Inl (Unhandled PrismaForeignKey), sample_db) \<and>
   submitRating sample_verifyToken sample_db (Some ''Bearer V'') ''7'' (JNumber 6)
     ''9'' ''2025-12-10'' = (Inl (Http 400 ''invalid''), sample_db)"
proof -
  let ?me = "\<lparr>p_id = ''4'', p_role = normal_user\<rparr>"
  have auth: "authMiddleware sample_verifyToken (Some ''Bearer V'') = Inr ?me"
    by (simp add: authMiddleware_def sample_verifyToken_def)
  have sto: "''7'' \<notin> set (map s_id (stores sample_db))"
    by (simp add: sample_defs)
  have fresh: "''9'' \<notin> set (map r_id (ratings sample_db))"
    by (simp add: sample_defs)
  from missing_store_rejected [OF sample_db_ok auth sto, of "JNumber 3" "''9'' " "''2025-12-10''"]
    missing_store_rejected [OF sample_db_ok auth sto, of "JNumber 6" "''9'' " "''2025-12-10''"]
    fresh
  show ?thesis by (simp add: is_Int_def)
qed

section \<open>Changing a password\<close>

text \<open>
  Claim C10 as stated fails at a path id that no user has: user 4 asks to change the
  password of the id 7. The update throws and the handler does not report success.
\<close>

theorem updatePassword_unknown_id:
  "fst (updatePassword sample_verifyToken sample_bcrypt sample_db (Some ''Bearer V'') ''7''
         (JString ''Secret!1'')) \<noteq> Inr True"
  by (simp add: updatePassword_def authMiddleware_def password_handler_def
      user_update_password_def sample_defs)

text \<open>
  Claim C10 as amended. For a request with a valid token and a non-empty string
  \<^verbatim>\<open>newPassword\<close>, whoever the caller is, the handler never answers Forbidden. When
  the path id is the id of a user, it reports success, and afterwards every user row of
  that id has the hash of the new password as its password while every other row, and
  the rest of the database, is as before. When no user has the id, the update throws, the
  handler ends with that uncaught exception and the database is as before.
\<close>

theorem updatePassword_no_authorization:
  assumes auth: "authMiddleware verifyToken header = Inr me"
    and pw: "s \<noteq> []"
  shows "\<not> is_Forbidden (fst (updatePassword verifyToken bcrypt d header target (JString s))) \<and>
         (target \<in> set (map u_id (users d)) \<longrightarrow>
            updatePassword verifyToken bcrypt d header target (JString s)
              = (Inr True,
                 d\<lparr>users := map (\<lambda>u. if u_id u = target then u\<lparr>u_password := bcrypt s\<rparr> else u)
                                  (users d)\<rparr>)) \<and>
         (target \<notin> set (map u_id (users d)) \<longrightarrow>
            updatePassword verifyToken bcrypt d header target (JString s)
              = (Inl (Unhandled PrismaNotFound), d))"
proof (cases "find (\<lambda>u. u_id u = target) (users d)")
  case None
  then have "target \<notin> set (map u_id (users d))"
    by (auto simp: find_None_iff)
  with None auth pw show ?thesis
    by (simp add: updatePassword_def password_handler_def user_update_password_def)
next
  case (Some u)
  then have "target \<in> set (map u_id (users d))"
    by (auto dest: find_Some_mem)
  with Some auth pw show ?thesis
    by (simp add: updatePassword_def password_handler_def user_update_password_def)
qed

theorem updatePassword_no_authorization_witness:
  "\<not> is_Forbidden (fst (updatePassword sample_verifyToken sample_bcrypt sample_db
                          (Some ''Bearer V'') ''1'' (JString ''Secret!1''))) \<and>
   fst (updatePassword sample_verifyToken sample_bcrypt sample_db (Some ''Bearer V'') ''1''
          (JString ''Secret!1'')) = Inr True \<and>
   map (\<lambda>u. (u_id u, u_password u))
     (users (snd (updatePassword sample_verifyToken sample_bcrypt sample_db (Some ''Bearer V'')
                    ''1'' (JString ''Secret!1''))))
     = [(''1'', ''$2a$10$Secret!1''), (''2'', ''h2''), (''3'', ''h3''), (''4'', ''h4'')] \<and>
   updatePassword sample_verifyToken sample_bcrypt sample_db (Some ''Bearer V'') ''7''
     (JString ''Secret!1'') = (Inl (Unhandled PrismaNotFound), sample_db)"
proof -
  let ?me = "\<lparr>p_id = ''4'', p_role = normal_user\<rparr>"
  have auth: "authMiddleware sample_verifyToken (Some ''Bearer V'') = Inr ?me"
    by (simp add: authMiddleware_def sample_verifyToken_def)
  have pw: "''Secret!1'' \<noteq> []" by simp
  have tgt: "''1'' \<in> set (map u_id (users sample_db))"
    "''7'' \<notin> set (map u_id (users sample_db))"
    by (simp_all add: sample_db_def sample_users_def)
  from updatePassword_no_authorization [OF auth pw, of sample_bcrypt sample_db "''1''"]
    updatePassword_no_authorization [OF auth pw, of sample_bcrypt sample_db "''7''"] tgt
  show ?thesis by (simp add: sample_db_def sample_users_def sample_bcrypt_def)
qed

section \<open>The average rating of a store\<close>

text \<open>
  Claim C5 as stated fails for a store with the ratings 4, 5 and 5. Their mean is 14/3,
  which is no double; both the client and the server give the double nearest to it,
  5254199565265579 / 2 ^ 50, which JavaScript prints as 4.666666666666667.
\<close>

theorem mean_455_is_rounded:
  "store_values sample_ratings_455 ''1'' = [4, 5, 5] \<and>
   mean (store_values sample_ratings_455 ''1'') = 14 / 3 \<and>
   getStoreAverageRating sample_ratings_455 ''1''
     = Fin (5254199565265579 / 1125899906842624) \<and>
   getStoreAverageRating sample_ratings_455 ''1''
     \<noteq> Fin (mean (store_values sample_ratings_455 ''1'')) \<and>
   averageRating (sample_db\<lparr>ratings := sample_ratings_455\<rparr>) ''1''
     \<noteq> Fin (mean (store_values sample_ratings_455 ''1''))"
proof -
  let ?d = "sample_db\<lparr>ratings := sample_ratings_455\<rparr>"
  have v: "store_values sample_ratings_455 ''1'' = [4, 5, 5]"
    by (simp add: store_values_def sample_ratings_def sample_ratings_455_def)
  have m: "mean [4, 5, 5] = 14 / 3" by (simp add: mean_def)
  have ok: "valid_ratings (store_values sample_ratings_455 ''1'')"
    unfolding v by (simp add: valid_ratings_def is_Int_def)
  have ne: "store_values sample_ratings_455 ''1'' \<noteq> []" by (simp add: v)
  have r: "ratings ?d = sample_ratings_455" by simp
  have c: "getStoreAverageRating sample_ratings_455 ''1'' = fl (14 / 3)"
    using client_average [OF ok ne] by (simp add: v m)
  have s: "averageRating ?d ''1'' = fl (14 / 3)"
    using server_average [of ?d "''1''"] ok ne by (simp add: v m)
  have "(5254199565265579 / 1125899906842624 :: rat) \<noteq> 14 / 3" by simp
  with c s v m show ?thesis by (simp add: fl_14_3)
qed

text \<open>
  Claim C5 as amended. For every store, the client's \<^verbatim>\<open>getStoreAverageRating\<close> and
  the server's \<^verbatim>\<open>averageRating\<close> are exactly 0 when the store has no ratings.
  Otherwise, for fewer than \<open>2 ^ 50\<close> ratings that are integers from 1 to 5, the sum is
  exact and the result is the one floating-point quotient of the sum by the count: the
  double nearest to the arithmetic mean, no further than \<open>1 / 2 ^ 51\<close> from it, with no
  other rounding.
\<close>

theorem average_is_nearest_double:
  assumes c: "valid_ratings (store_values rs sid)"
    and s: "valid_ratings (store_values (ratings d) sid)"
  shows "(store_values rs sid = [] \<longrightarrow> getStoreAverageRating rs sid = Fin 0) \<and>
         (store_values rs sid \<noteq> [] \<longrightarrow>
            getStoreAverageRating rs sid = fl (mean (store_values rs sid)) \<and>
            (\<exists>y. getStoreAverageRating rs sid = Fin y \<and>
                 \<bar>y - mean (store_values rs sid)\<bar> \<le> 1 / 2 ^ 51)) \<and>
         (store_values (ratings d) sid = [] \<longrightarrow> averageRating d sid = Fin 0) \<and>
         (store_values (ratings d) sid \<noteq> [] \<longrightarrow>
            averageRating d sid = fl (mean (store_values (ratings d) sid)) \<and>
            (\<exists>y. averageRating d sid = Fin y \<and>
                 \<bar>y - mean (store_values (ratings d) sid)\<bar> \<le> 1 / 2 ^ 51))"
proof -
  have c0: "store_values rs sid = [] \<longrightarrow> getStoreAverageRating rs sid = Fin 0"
    by (simp add: getStoreAverageRating_def store_values_def)
  have s0: "store_values (ratings d) sid = [] \<longrightarrow> averageRating d sid = Fin 0"
    by (simp add: averageRating_def rating_aggregate_def store_values_def)
  have c1: "getStoreAverageRating rs sid = fl (mean (store_values rs sid)) \<and>
      (\<exists>y. getStoreAverageRating rs sid = Fin y \<and>
           \<bar>y - mean (store_values rs sid)\<bar> \<le> 1 / 2 ^ 51)"
    if "store_values rs sid \<noteq> []"
    using client_average [OF c that] valid_mean_range [OF c that]
      fl_near [of "mean (store_values rs sid)"] by simp
  have s1: "averageRating d sid = fl (mean (store_values (ratings d) sid)) \<and>
      (\<exists>y. averageRating d sid = Fin y \<and>
           \<bar>y - mean (store_values (ratings d) sid)\<bar> \<le> 1 / 2 ^ 51)"
    if "store_values (ratings d) sid \<noteq> []"
    using server_average [OF s that] valid_mean_range [OF s that]
      fl_near [of "mean (store_values (ratings d) sid)"] by simp
  from c0 s0 c1 s1 show ?thesis by blast
qed

theorem average_is_nearest_double_witness:
  "getStoreAverageRating sample_ratings ''7'' = Fin 0 \<and>
   getStoreAverageRating sample_ratings ''1'' = Fin (9 / 2) \<and>
   averageRating sample_db ''7'' = Fin 0 \<and>
   averageRating sample_db ''1'' = Fin (9 / 2) \<and>
   getStoreAverageRating sample_ratings_455 ''1'' = Fin (5254199565265579 / 1125899906842624) \<and>
   averageRating (sample_db\<lparr>ratings := sample_ratings_455\<rparr>) ''1''
     = Fin (5254199565265579 / 1125899906842624) \<and>
   \<bar>5254199565265579 / 1125899906842624 - 14 / 3\<bar> \<le> (1 / 2 ^ 51 :: rat)"
proof -
  let ?d = "sample_db\<lparr>ratings := sample_ratings_455\<rparr>"
  have v1: "store_values sample_ratings ''1'' = [4, 5]"
    and v7: "store_values sample_ratings ''7'' = []"
    and v3: "store_values sample_ratings_455 ''1'' = [4, 5, 5]"
    by (simp_all add: store_values_def sample_ratings_def sample_ratings_455_def)
  have r: "ratings sample_db = sample_ratings" "ratings ?d = sample_ratings_455"
    by (simp_all add: sample_db_def)
  have ok1: "valid_ratings (store_values sample_ratings ''1'')"
    and ok7: "valid_ratings (store_values sample_ratings ''7'')"
    and ok3: "valid_ratings (store_values sample_ratings_455 ''1'')"
    unfolding v1 v7 v3 by (simp_all add: valid_ratings_def is_Int_def)
  have f: "fl (9 / 2) = Fin (9 / 2)" by code_simp
  have m: "mean [4, 5, 5] = 14 / 3" "mean [4, 5] = 9 / 2" by (simp_all add: mean_def)
  have a: "\<bar>5254199565265579 / 1125899906842624 - 14 / 3\<bar> \<le> (1 / 2 ^ 51 :: rat)" by simp
  from average_is_nearest_double [of sample_ratings "''1''" sample_db]
    average_is_nearest_double [of sample_ratings "''7''" sample_db]
    average_is_nearest_double [of sample_ratings_455 "''1''" ?d]
    ok1 ok7 ok3 v1 v7 v3 r f m a
  show ?thesis by (simp add: fl_14_3)
qed

section \<open>Searching stores by the email of the owner\<close>

text \<open>
  Claim C6 at the request \<^verbatim>\<open>GET /admin/stores?q=OWNER@\<close> of the administrator. Both
  sample stores belong to user 2, whose email contains the filter whatever the case. The
  \<^verbatim>\<open>where\<close> object that the handler builds has a condition on the name and one on
  the address of a store and none on the email of the owner; and each condition carries
  the \<^verbatim>\<open>mode\<close> that the storage client rejects, so that the request ends with the
  uncaught exception and lists no store.
\<close>

theorem admin_stores_misses_owner_email:
  "admin_stores_where (Some ''OWNER@'')
     = Some [ContainsInsensitive ''name'' ''OWNER@'', ContainsInsensitive ''address'' ''OWNER@''] \<and>
   admin_stores sample_verifyToken sample_db (Some ''Bearer A'') (Some ''OWNER@'') None None
     = Inl (Unhandled PrismaValidation) \<and>
   map s_ownerId (stores sample_db) = [''2'', ''2''] \<and>
   map u_email (filter (\<lambda>u. u_id u = ''2'') (users sample_db)) = [''owner@storerating.com''] \<and>
   str_includes (toLowerCase ''owner@storerating.com'') (toLowerCase ''OWNER@'')"
  by code_simp

section \<open>Pages of the admin lists\<close>




section \<open>The two sides of the merge in the client\<close>

text \<open>
  Claim C3 as stated fails at the edit of the rating with id 1 (user 3, store 1) to the
  value 2, on the initial ratings of the client and with no token stored. On the HEAD
  side \<^verbatim>\<open>updateRating\<close> first calls \<^verbatim>\<open>addRating\<close>, which appends a row for the same
  pair, and then rewrites the row with the id: the pair has two rows. On the other side
  the row is rewritten in place and the pair keeps its one row.
\<close>

theorem merge_sides_differ:
  "updateRating_HEAD None not_ok ''1765295653000'' ''2025-12-09T15:54:13.000Z'' ''1'' 2
     sample_ratings \<noteq> Some (updateRating_other ''1'' 2 sample_ratings) \<and>
   map_option (\<lambda>rs. length (pair_rows rs ''3'' ''1''))
     (updateRating_HEAD None not_ok ''1765295653000'' ''2025-12-09T15:54:13.000Z'' ''1'' 2
        sample_ratings) = Some 2 \<and>
   length (pair_rows (updateRating_other ''1'' 2 sample_ratings) ''3'' ''1'') = 1"
  by (simp add: updateRating_HEAD_def updateRating_other_def addRating_HEAD_def has_token_def
      newRating_def pair_rows_def sample_ratings_def)

text \<open>
  Claim C3 as amended. The two sides are not equivalent. On the side whose
  \<^verbatim>\<open>updateRating\<close> only rewrites the value in place, a submission through the rating
  dialog, with a store selected and a value other than 0, keeps the ratings at no more
  than one row for each pair and leaves the pair of the submission with exactly one row,
  which carries the submitted value. The \<^verbatim>\<open>addRating\<close> of the HEAD side gives the same
  list as the one of the other side when no token is stored or the response of the server
  is not ok.
\<close>

theorem other_branch_one_row_per_pair:
  assumes inv: "one_per_pair rs" and sid: "sid \<noteq> []" and v: "v \<noteq> 0"
  shows "one_per_pair (handleSubmitRating_other (Some u) (Some sid) v nowId nowIso rs) \<and>
         map r_rating
           (pair_rows (handleSubmitRating_other (Some u) (Some sid) v nowId nowIso rs) (u_id u) sid)
           = [v] \<and>
         (\<not> has_token token \<or> res = not_ok \<longrightarrow>
            addRating_HEAD token res nowId nowIso nr rs = Some (addRating_other nowId nowIso nr rs))"
proof -
  have agree: "\<not> has_token token \<or> res = not_ok \<longrightarrow>
      addRating_HEAD token res nowId nowIso nr rs = Some (addRating_other nowId nowIso nr rs)"
    by (auto simp: addRating_HEAD_def addRating_other_def)
  show ?thesis
  proof (cases "getUserRating rs (u_id u) sid")
    case None
    then have none: "\<forall>r\<in>set rs. \<not> (r_userId r = u_id u \<and> r_storeId r = sid)"
      by (simp add: getUserRating_def find_None_iff)
    then have "(u_id u, sid) \<notin> set (map (\<lambda>r. (r_userId r, r_storeId r)) rs)" by auto
    with inv None none agree sid v show ?thesis
      by (simp add: handleSubmitRating_other_def addRating_other_def newRating_def
          one_per_pair_def pair_rows_def filter_empty_conv)
  next
    case (Some e)
    then have m: "e \<in> set rs" and p: "r_userId e = u_id u \<and> r_storeId e = sid"
      by (auto simp: getUserRating_def dest: find_Some_mem)
    from inv have "distinct (map (\<lambda>r. (r_userId r, r_storeId r)) rs)"
      by (simp add: one_per_pair_def)
    from filter_by_key [OF this m] p have "pair_rows rs (u_id u) sid = [e]"
      by (simp add: pair_rows_def)
    with inv Some agree sid v show ?thesis
      by (simp add: handleSubmitRating_other_def pair_rows_update_other
          one_per_pair_update_other)
  qed
qed

theorem other_branch_one_row_per_pair_witness:
  "one_per_pair (handleSubmitRating_other (Some (sample_client_users ! 3)) (Some ''1'') 2
                   ''1765295653000'' ''2025-12-09T15:54:13.000Z'' sample_ratings) \<and>
   map r_rating
     (pair_rows (handleSubmitRating_other (Some (sample_client_users ! 3)) (Some ''1'') 2
                   ''1765295653000'' ''2025-12-09T15:54:13.000Z'' sample_ratings) ''4'' ''1'')
     = [2] \<and>
   addRating_HEAD None not_ok ''1765295653000'' ''2025-12-09T15:54:13.000Z''
       \<lparr>n_userId = ''4'', n_storeId = ''2'', n_rating = 5\<rparr> sample_ratings
     = Some (addRating_other ''1765295653000'' ''2025-12-09T15:54:13.000Z''
               \<lparr>n_userId = ''4'', n_storeId = ''2'', n_rating = 5\<rparr> sample_ratings)"
proof -
  have inv: "one_per_pair sample_ratings"
    by (simp add: one_per_pair_def sample_ratings_def)
  have sid: "''1'' \<noteq> []" and v: "(2::rat) \<noteq> 0" by simp_all
  have u: "u_id (sample_client_users ! 3) = ''4''"
    by (simp add: sample_client_users_def sample_users_def User.truncate_def)
  from other_branch_one_row_per_pair [OF inv sid v, of "sample_client_users ! 3"
      "''1765295653000''" "''2025-12-09T15:54:13.000Z''" None not_ok
      "\<lparr>n_userId = ''4'', n_storeId = ''2'', n_rating = 5\<rparr>"] u
  show ?thesis by (simp add: has_token_def)
qed

section \<open>Concurrent submissions for one pair\<close>

text \<open>
  Claim C2 as stated fails on the schedule in which both requests look the pair up
  before either writes: user 4 submits 3 and 5 for store 2, for which the user has no
  rating yet. Both lookups find nothing, the first insert succeeds, and the second insert
  is refused by the unique index; the handler has no fall-back to an update, so the
  second caller gets the uncaught uniqueness error.
\<close>

theorem concurrent_unique_violation:
  "run [A, B, A, B] sample_request_A sample_request_B (Start, Start, sample_db)
     = (Finished (Inr \<lparr>r_id = ''9'', r_userId = ''4'', r_storeId = ''2'', r_rating = 3,
                        r_createdAt = ''2025-12-10''\<rparr>),
        Finished (Inl (Unhandled PrismaUnique)),
        sample_db\<lparr>ratings := sample_ratings @
          [\<lparr>r_id = ''9'', r_userId = ''4'', r_storeId = ''2'', r_rating = 3,
            r_createdAt = ''2025-12-10''\<rparr>]\<rparr>)"
  by (simp add: sample_request_A_def sample_request_B_def rating_findUnique_def
      rating_create_def is_Int_def Let_def sample_defs)

text \<open>
  Claim C2 as amended. Two concurrent submissions of one user for one store, each a
  lookup followed by a write and interleaved in any order in which both run to their
  end, leave exactly one Rating row for the pair, and its value is the value of one of
  the two calls: never two rows and never none.
\<close>

theorem concurrent_submissions:
  fixes v1 v2 :: int
  assumes ok: "db_ok d"
    and usr: "p_id me \<in> set (map u_id (users d))"
    and sto: "sid \<in> set (map s_id (stores d))"
    and r1: "1 \<le> v1" "v1 \<le> 5" and r2: "1 \<le> v2" "v2 \<le> 5"
    and fresh: "idA \<notin> set (map r_id (ratings d))" "idB \<notin> set (map r_id (ratings d))"
    and sch: "2 \<le> count_list sch A" "2 \<le> count_list sch B"
  shows "\<exists>ra rb d' x.
           run sch \<lparr>q_me = me, q_sid = sid, q_body = JNumber (of_int v1), q_newId = idA, q_now = ta\<rparr>
                   \<lparr>q_me = me, q_sid = sid, q_body = JNumber (of_int v2), q_newId = idB, q_now = tb\<rparr>
                   (Start, Start, d) = (Finished ra, Finished rb, d') \<and>
           rows_for d' (p_id me) sid = [x] \<and>
           (r_rating x = of_int v1 \<or> r_rating x = of_int v2)"
proof -
  let ?qa = "\<lparr>q_me = me, q_sid = sid, q_body = JNumber (of_int v1), q_newId = idA, q_now = ta\<rparr>"
  let ?qb = "\<lparr>q_me = me, q_sid = sid, q_body = JNumber (of_int v2), q_newId = idB, q_now = tb\<rparr>"
  have qa: "ratingSchema (q_body ?qa) = Some (of_int v1)" "is_Int (rat_of_int v1)"
      "p_id (q_me ?qa) = p_id me" "q_sid ?qa = sid" "q_newId ?qa = idA"
    using r1 by (simp_all add: is_Int_of_int)
  have qb: "ratingSchema (q_body ?qb) = Some (of_int v2)" "is_Int (rat_of_int v2)"
      "p_id (q_me ?qb) = p_id me" "q_sid ?qb = sid" "q_newId ?qb = idB"
    using r2 by (simp_all add: is_Int_of_int)
  have i0: "race_inv (p_id me) sid (of_int v1) (of_int v2) idA idB Start Start d"
    using ok usr sto fresh by (simp add: race_inv_def base_inv_def)
  obtain pa pb d' where fin: "run sch ?qa ?qb (Start, Start, d) = (pa, pb, d')"
    by (cases "run sch ?qa ?qb (Start, Start, d)")
  from run_inv [OF qa qb i0 fin] sch
  have i: "race_inv (p_id me) sid (of_int v1) (of_int v2) idA idB pa pb d'"
    and rk: "rank pa = 2" "rank pb = 2"
    by (simp_all add: min_def)
  from rank_2 [OF rk(1)] rank_2 [OF rk(2)]
  obtain ra rb where p: "pa = Finished ra" "pb = Finished rb"
    by blast
  with i obtain x where "rows_for d' (p_id me) sid = [x]"
      "r_rating x = of_int v1 \<or> r_rating x = of_int v2"
    by (auto simp: race_inv_def)
  with fin p show ?thesis by blast
qed

theorem concurrent_submissions_witness:
  "\<exists>ra rb d' x.
     run [B, A, A, B] sample_request_A sample_request_B (Start, Start, sample_db)
       = (Finished ra, Finished rb, d') \<and>
     rows_for d' ''4'' ''2'' = [x] \<and> (r_rating x = 3 \<or> r_rating x = 5)"
proof -
  let ?me = "\<lparr>p_id = ''4'', p_role = normal_user\<rparr>"
  have usr: "p_id ?me \<in> set (map u_id (users sample_db))"
    and sto: "''2'' \<in> set (map s_id (stores sample_db))"
    and fresh: "''9'' \<notin> set (map r_id (ratings sample_db))"
      "''10'' \<notin> set (map r_id (ratings sample_db))"
    by (simp_all add: sample_defs)
  have v: "(1::int) \<le> 3" "(3::int) \<le> 5" "(1::int) \<le> 5" "(5::int) \<le> 5" by simp_all
  have sch: "2 \<le> count_list [B, A, A, B] A" "2 \<le> count_list [B, A, A, B] B" by simp_all
  from concurrent_submissions [OF sample_db_ok usr sto v fresh sch, of "''2025-12-10''"
      "''2025-12-10''"]
  show ?thesis by (simp add: sample_request_A_def sample_request_B_def)
qed

end
